theory Spec2Isabelle
  imports Main "HOL-Library.Multiset"
begin

section \<open>Values, columns and data frames\<close>

text \<open>
  Python objects that occur as rule parameters and as cell values. \<open>VNull\<close> is both
  Python's \<open>None\<close> and the engine's null. A finite float is \<open>VFloat m e\<close>, standing for
  \<open>m * 2 ^ e\<close>; the core never computes with floats, it only hands them to the engine.
\<close>

datatype "value" = VNull | VBool bool | VInt int | VFloat int int | VStr string | VList "value list"

text \<open>Python truthiness (\<open>if x:\<close>, \<open>not x\<close>).\<close>

fun truthy :: "value \<Rightarrow> bool" where
  "truthy VNull = False"
| "truthy (VBool b) = b"
| "truthy (VInt i) = (i \<noteq> 0)"
| "truthy (VFloat m e) = (m \<noteq> 0)"
| "truthy (VStr s) = (s \<noteq> [])"
| "truthy (VList vs) = (vs \<noteq> [])"

datatype dtype = Int8 | Int16 | Int32 | Int64 | UInt8 | UInt16 | UInt32 | UInt64
  | Float32 | Float64 | Utf8 | Boolean | Date | Datetime

record column =
  col_name :: string
  col_dtype :: dtype
  col_values :: "value list"

text \<open>A data frame is its columns, in the engine's order.\<close>

type_synonym dataframe = "column list"

definition df_columns :: "dataframe \<Rightarrow> string list" where
  "df_columns df = map col_name df"

section \<open>Errors\<close>

datatype selector_conflict = Columns_and_pattern | Pattern_and_all | Columns_and_all

datatype operation = DROP_NULLS | FILL_NULLS | DROP_DUPLICATES | TRIM_WHITESPACE | LOWERCASE
  | UPPERCASE | REPLACE | CAST_TYPE | FILTER | REMOVE_OUTLIERS | STANDARDIZE | VALIDATE

datatype error =
    ValidationError selector_conflict
  | ConfigNotLoaded
  | UnknownOperation operation
  | ColumnNotFound string
  | DuplicateError string
  | RegexError string
  | TypeError
  | InvalidOperation
  | ContractViolation string
  | NotConnected
  | TableExists string
  | ParserError

definition ebind :: "error + 'a \<Rightarrow> ('a \<Rightarrow> error + 'b) \<Rightarrow> error + 'b" where
  "ebind m f = (case m of Inl e \<Rightarrow> Inl e | Inr x \<Rightarrow> f x)"

section \<open>Rule model (rules.py)\<close>

record ColumnSelector =
  sel_columns :: "string list option"
  sel_pattern :: "string option"
  sel_all :: bool

text \<open>Truthiness of an \<open>Optional[List[str]]\<close> and of an \<open>Optional[str]\<close>.\<close>

definition truthy_opt :: "'a list option \<Rightarrow> bool" where
  "truthy_opt x = (case x of None \<Rightarrow> False | Some xs \<Rightarrow> xs \<noteq> [])"

text \<open>\<open>ColumnSelector.validate_selector\<close>, the model validator run by the constructor.\<close>

definition validate_selector :: "ColumnSelector \<Rightarrow> error + ColumnSelector" where
  "validate_selector s =
     (if truthy_opt (sel_pattern s) \<and> truthy_opt (sel_columns s)
        then Inl (ValidationError Columns_and_pattern)
      else if truthy_opt (sel_pattern s) \<and> sel_all s
        then Inl (ValidationError Pattern_and_all)
      else if truthy_opt (sel_columns s) \<and> sel_all s
        then Inl (ValidationError Columns_and_all)
      else Inr s)"

text \<open>\<open>ColumnSelector(columns=..., pattern=..., all=...)\<close>.\<close>

definition mk_ColumnSelector ::
  "string list option \<Rightarrow> string option \<Rightarrow> bool \<Rightarrow> error + ColumnSelector" where
  "mk_ColumnSelector cs p a =
     validate_selector \<lparr>sel_columns = cs, sel_pattern = p, sel_all = a\<rparr>"

type_synonym params = "(string \<times> value) list"

record CleaningRule =
  rule_name :: string
  rule_operation :: operation
  rule_columns :: ColumnSelector
  rule_parameters :: params
  rule_enabled :: bool
  rule_order :: int

record DataContract =
  contract_columns :: "(string \<times> params) list"
  contract_strict :: bool
  contract_coerce :: bool

record RuleConfig =
  cfg_version :: string
  cfg_name :: string
  cfg_description :: "string option"
  input_contract :: "DataContract option"
  output_contract :: "DataContract option"
  rules :: "CleaningRule list"
  observability :: params

text \<open>
  \<open>RuleConfig.sort_rules_by_order\<close>: \<open>sorted(v, key=lambda r: r.order)\<close>. Python's
  \<open>sorted\<close> is a stable sort by key, as \<open>sort_key\<close> is.
\<close>

definition sort_rules_by_order :: "CleaningRule list \<Rightarrow> CleaningRule list" where
  "sort_rules_by_order v = sort_key rule_order v"

text \<open>\<open>RuleConfig(...)\<close>: the field validator replaces \<open>rules\<close> by its result.\<close>

definition mk_RuleConfig ::
  "string \<Rightarrow> string \<Rightarrow> string option \<Rightarrow> DataContract option \<Rightarrow> DataContract option \<Rightarrow>
   CleaningRule list \<Rightarrow> params \<Rightarrow> RuleConfig" where
  "mk_RuleConfig ver nm descr ic oc rs obs =
     \<lparr>cfg_version = ver, cfg_name = nm, cfg_description = descr, input_contract = ic,
      output_contract = oc, rules = sort_rules_by_order rs, observability = obs\<rparr>"

section \<open>Patterns (Python's \<open>re\<close>)\<close>

text \<open>
  A compiled pattern is known by the matches it has in a subject string: \<open>m s i j\<close> when
  the pattern matches \<open>s\<close> from position \<open>i\<close> up to position \<open>j\<close>. The whole subject is
  given, since anchors, word boundaries and look-around depend on what lies around the
  match.
\<close>

type_synonym matcher = "string \<Rightarrow> nat \<Rightarrow> nat \<Rightarrow> bool"

text \<open>\<open>pattern.match(s) is not None\<close>: the pattern has a match that starts at position 0.\<close>

definition pattern_match :: "matcher \<Rightarrow> string \<Rightarrow> bool" where
  "pattern_match m s = list_ex (m s 0) [0..<Suc (length s)]"

text \<open>
  \<open>pattern.search(s) is not None\<close>: a match that starts anywhere. The source does not
  call it; it is here to tell the two apart.
\<close>

definition pattern_search :: "matcher \<Rightarrow> string \<Rightarrow> bool" where
  "pattern_search m s =
     list_ex (\<lambda>i. list_ex (m s i) [i..<Suc (length s)]) [0..<Suc (length s)]"

section \<open>A fragment of the pattern language\<close>

text \<open>
  Regular expressions over character classes, with an optional \<open>^\<close> in front and an
  optional \<open>$\<close> at the end: what the engine for the examples compiles.
\<close>

datatype cset = CChar char | CDigit | CWord | CSpace | CAny

fun cset_mem :: "cset \<Rightarrow> char \<Rightarrow> bool" where
  "cset_mem (CChar d) c = (c = d)"
| "cset_mem CDigit c = (c \<in> set ''0123456789'')"
| "cset_mem CWord c =
     (c \<in> set ''abcdefghijklmnopqrstuvwxyzABCDEFGHIJKLMNOPQRSTUVWXYZ0123456789_'')"
| "cset_mem CSpace c = (c \<in> set [CHR '' '', CHR 0x09, CHR 0x0A, CHR 0x0B, CHR 0x0C, CHR 0x0D])"
| "cset_mem CAny c = (c \<noteq> CHR 0x0A)"

datatype regex = Null | Epsilon | Atom cset | Alt regex regex | Seq regex regex | Star regex

fun nullable :: "regex \<Rightarrow> bool" where
  "nullable Null = False"
| "nullable Epsilon = True"
| "nullable (Atom a) = False"
| "nullable (Alt r s) = (nullable r \<or> nullable s)"
| "nullable (Seq r s) = (nullable r \<and> nullable s)"
| "nullable (Star r) = True"

fun deriv :: "char \<Rightarrow> regex \<Rightarrow> regex" where
  "deriv c Null = Null"
| "deriv c Epsilon = Null"
| "deriv c (Atom a) = (if cset_mem a c then Epsilon else Null)"
| "deriv c (Alt r s) = Alt (deriv c r) (deriv c s)"
| "deriv c (Seq r s) =
     (if nullable r then Alt (Seq (deriv c r) s) (deriv c s) else Seq (deriv c r) s)"
| "deriv c (Star r) = Seq (deriv c r) (Star r)"

text \<open>Whether the expression matches the whole of a word.\<close>

fun re_full :: "regex \<Rightarrow> string \<Rightarrow> bool" where
  "re_full r [] = nullable r"
| "re_full r (c # cs) = re_full (deriv c r) cs"

text \<open>The words an expression matches in full, as a set: the reference for \<open>re_full\<close>.\<close>

definition conc :: "string set \<Rightarrow> string set \<Rightarrow> string set" where
  "conc A B = {u @ v | u v. u \<in> A \<and> v \<in> B}"

inductive_set star :: "string set \<Rightarrow> string set" for A :: "string set" where
  star_nil: "[] \<in> star A"
| star_step: "u \<in> A \<Longrightarrow> v \<in> star A \<Longrightarrow> u @ v \<in> star A"

fun lang :: "regex \<Rightarrow> string set" where
  "lang Null = {}"
| "lang Epsilon = {[]}"
| "lang (Atom a) = {[c] | c. cset_mem a c}"
| "lang (Alt r s) = lang r \<union> lang s"
| "lang (Seq r s) = conc (lang r) (lang s)"
| "lang (Star r) = star (lang r)"

text \<open>
  The matches of \<open>^\<close>(optional) expression \<open>$\<close>(optional) in a subject: the part from \<open>i\<close>
  to \<open>j\<close> is matched in full; \<open>^\<close> holds at position 0 only, \<open>$\<close> at the end of the
  subject or before a newline that ends it.
\<close>

definition fragment_matcher :: "bool \<Rightarrow> regex \<Rightarrow> bool \<Rightarrow> matcher" where
  "fragment_matcher bol r eol s i j =
     (i \<le> j \<and> j \<le> length s \<and>
      (if bol then i = 0 else True) \<and>
      (if eol then j = length s \<or> (Suc j = length s \<and> s ! j = CHR 0x0A) else True) \<and>
      re_full r (take (j - i) (drop i s)))"

text \<open>
  A reader of pattern strings for the fragment: literal characters, \<open>.\<close>, the classes
  \<open>\d\<close>, \<open>\w\<close>, \<open>\s\<close>, escaped punctuation, one postfix \<open>*\<close>, \<open>+\<close> or \<open>?\<close> per item, and
  \<open>$\<close> as the last character. \<open>esc\<close> is set after a backslash, \<open>q\<close> when the last item
  already carries a quantifier; \<open>acc\<close> holds the items read so far, last first. The
  result is the items and whether the pattern ends with \<open>$\<close>; \<open>None\<close> is a pattern outside
  the fragment.
\<close>

definition re_special :: "char \<Rightarrow> bool" where
  "re_special c = (c \<in> set [CHR ''.'', CHR ''^'', CHR ''$'', CHR ''*'', CHR ''+'', CHR ''?'',
     CHR ''{'', CHR ''}'', CHR ''['', CHR '']'', CHR 0x5C, CHR ''|'', CHR ''('', CHR '')''])"

definition re_escape :: "char \<Rightarrow> cset option" where
  "re_escape c =
     (if c = CHR ''d'' then Some CDigit
      else if c = CHR ''w'' then Some CWord
      else if c = CHR ''s'' then Some CSpace
      else if re_special c \<or> c = CHR ''_'' \<or> c = CHR ''-'' then Some (CChar c)
      else None)"

fun re_parse :: "bool \<Rightarrow> bool \<Rightarrow> regex list \<Rightarrow> string \<Rightarrow> (regex list \<times> bool) option" where
  "re_parse esc q acc [] = (if esc then None else Some (rev acc, False))"
| "re_parse True q acc (c # cs) =
     (case re_escape c of None \<Rightarrow> None | Some a \<Rightarrow> re_parse False False (Atom a # acc) cs)"
| "re_parse False q acc (c # cs) =
     (if c = CHR 0x5C then re_parse True q acc cs
      else if c = CHR ''*'' \<or> c = CHR ''+'' \<or> c = CHR ''?'' then
        (case acc of
           [] \<Rightarrow> None
         | r # acc' \<Rightarrow>
             if q then None
             else if c = CHR ''*'' then re_parse False True (Star r # acc') cs
             else if c = CHR ''+'' then re_parse False True (Seq r (Star r) # acc') cs
             else re_parse False True (Alt r Epsilon # acc') cs)
      else if c = CHR ''.'' then re_parse False False (Atom CAny # acc) cs
      else if c = CHR ''$'' then (if cs = [] then Some (rev acc, True) else None)
      else if re_special c then None
      else re_parse False False (Atom (CChar c) # acc) cs)"

definition re_compile_fragment :: "string \<Rightarrow> matcher option" where
  "re_compile_fragment p =
     (let bol = (case p of [] \<Rightarrow> False | c # _ \<Rightarrow> c = CHR ''^'')
      in map_option (\<lambda>(items, eol). fragment_matcher bol (foldr Seq items Epsilon) eol)
           (re_parse False False [] (if bol then tl p else p)))"

section \<open>The external collaborators\<close>

text \<open>
  What the core calls and does not implement: the regular-expression compiler, the
  column computations of the dataframe engine, and the schema-contract engine. An
  \<open>engine\<close> is one behaviour of these collaborators; every theorem about the core holds
  for all of them.
  \<^item> \<open>re_compile\<close>: \<open>re.compile\<close>, giving the matches of the pattern; \<open>None\<close> is
    \<open>re.error\<close>.
  \<^item> \<open>str_strip_chars\<close>, \<open>str_to_lowercase\<close>, \<open>str_to_uppercase\<close>: on one string.
  \<^item> \<open>str_replace_all pattern replacement\<close>, \<open>replace_values old new\<close>,
    \<open>fill_null_with v\<close>, \<open>standardize_col\<close>: on one column.
  \<^item> \<open>agg_mean\<close>, \<open>agg_median\<close>: the aggregate of a column.
  \<^item> \<open>cast_supported from to\<close>: whether the engine converts columns of the one type to
    the other at all; \<open>cast_value dt v\<close>: the cast of one non-null value, \<open>None\<close> when
    it fails; \<open>parse_dtype\<close>: the engine's reading of a type given otherwise than as a
    native type.
  \<^item> \<open>compare_mask operator column value\<close>: the rows a comparison keeps.
  \<^item> \<open>iqr_mask threshold column\<close>: the rows within the interquartile bounds;
    \<open>zscore_mask threshold column\<close>: the rows within the deviation bound, \<open>None\<close> when
    the column's standard deviation is null or zero (no filtering).
  \<^item> \<open>unique_rows subset maintain_order\<close>: one row for each distinct key.
  \<^item> \<open>schema_validate\<close>: the contract engine.
\<close>

record engine =
  re_compile :: "string \<Rightarrow> matcher option"
  str_strip_chars :: "string \<Rightarrow> string"
  str_to_lowercase :: "string \<Rightarrow> string"
  str_to_uppercase :: "string \<Rightarrow> string"
  str_replace_all :: "value \<Rightarrow> value \<Rightarrow> column \<Rightarrow> error + column"
  replace_values :: "value \<Rightarrow> value \<Rightarrow> column \<Rightarrow> error + column"
  fill_null_with :: "value \<Rightarrow> column \<Rightarrow> error + column"
  agg_mean :: "column \<Rightarrow> value"
  agg_median :: "column \<Rightarrow> value"
  cast_supported :: "dtype \<Rightarrow> dtype \<Rightarrow> bool"
  cast_value :: "dtype \<Rightarrow> value \<Rightarrow> value option"
  parse_dtype :: "value \<Rightarrow> dtype option"
  compare_mask :: "string \<Rightarrow> column \<Rightarrow> value \<Rightarrow> error + bool list"
  iqr_mask :: "value \<Rightarrow> column \<Rightarrow> error + bool list"
  zscore_mask :: "value \<Rightarrow> column \<Rightarrow> error + bool list option"
  standardize_col :: "column \<Rightarrow> error + column"
  unique_rows :: "string list \<Rightarrow> value \<Rightarrow> dataframe \<Rightarrow> error + dataframe"
  schema_validate :: "DataContract \<Rightarrow> dataframe \<Rightarrow> error + dataframe"

section \<open>Column resolution (operations.py, \<open>select_columns\<close>)\<close>

definition select_columns :: "engine \<Rightarrow> dataframe \<Rightarrow> ColumnSelector \<Rightarrow> error + string list" where
  "select_columns E df selector =
     (if sel_all selector then Inr (df_columns df)
      else if truthy_opt (sel_columns selector) then
        (case sel_columns selector of
           None \<Rightarrow> Inr (df_columns df)
         | Some cs \<Rightarrow> Inr [col \<leftarrow> cs. col \<in> set (df_columns df)])
      else if truthy_opt (sel_pattern selector) then
        (case sel_pattern selector of
           None \<Rightarrow> Inr (df_columns df)
         | Some p \<Rightarrow>
             (case re_compile E p of
                None \<Rightarrow> Inl (RegexError p)
              | Some m \<Rightarrow> Inr [col \<leftarrow> df_columns df. pattern_match m col]))
      else Inr (df_columns df))"

section \<open>Frame primitives of the dataframe engine\<close>

text \<open>\<open>df[col]\<close>: the column of that name, or the engine's column-not-found error.\<close>

definition get_column :: "dataframe \<Rightarrow> string \<Rightarrow> error + column" where
  "get_column df n =
     (case find (\<lambda>c. col_name c = n) df of None \<Rightarrow> Inl (ColumnNotFound n) | Some c \<Rightarrow> Inr c)"

fun get_columns :: "dataframe \<Rightarrow> string list \<Rightarrow> error + column list" where
  "get_columns df [] = Inr []"
| "get_columns df (n # ns) =
     (case get_column df n of
        Inl e \<Rightarrow> Inl e
      | Inr c \<Rightarrow> (case get_columns df ns of Inl e \<Rightarrow> Inl e | Inr cs \<Rightarrow> Inr (c # cs)))"

text \<open>
  The comprehension \<open>[... for col in columns if df[col].dtype ...]\<close>: the names whose
  column has a dtype in \<open>P\<close>; \<open>df[col]\<close> raises for a name that is not a column.
\<close>

fun cols_where :: "(dtype \<Rightarrow> bool) \<Rightarrow> dataframe \<Rightarrow> string list \<Rightarrow> error + string list" where
  "cols_where P df [] = Inr []"
| "cols_where P df (col # cols) =
     (case get_column df col of
        Inl e \<Rightarrow> Inl e
      | Inr c \<Rightarrow>
          (case cols_where P df cols of
             Inl e \<Rightarrow> Inl e
           | Inr rest \<Rightarrow> Inr (if P (col_dtype c) then col # rest else rest)))"

fun first_duplicate :: "string list \<Rightarrow> string option" where
  "first_duplicate [] = None"
| "first_duplicate (n # ns) = (if n \<in> set ns then Some n else first_duplicate ns)"

type_synonym expr = "string \<times> (column \<Rightarrow> error + column)"

fun eval_exprs :: "dataframe \<Rightarrow> expr list \<Rightarrow> error + column list" where
  "eval_exprs df [] = Inr []"
| "eval_exprs df (e # es) =
     (case get_column df (fst e) of
        Inl err \<Rightarrow> Inl err
      | Inr c \<Rightarrow>
          (case snd e c of
             Inl err \<Rightarrow> Inl err
           | Inr c' \<Rightarrow>
               (case eval_exprs df es of
                  Inl err \<Rightarrow> Inl err
                | Inr cs \<Rightarrow> Inr (c'\<lparr>col_name := fst e\<rparr> # cs))))"

text \<open>
  \<open>df.with_columns([pl.col(col)...., ...])\<close>, each expression a function of the column it
  names and keeping that name. The engine resolves the names first (a missing column or
  two expressions with one output name are errors), evaluates the expressions on the
  frame as it is, and puts each result in place of the column of its name.
\<close>

definition with_columns :: "dataframe \<Rightarrow> expr list \<Rightarrow> error + dataframe" where
  "with_columns df exprs =
     ebind (get_columns df (map fst exprs)) (\<lambda>_.
       case first_duplicate (map fst exprs) of
         Some n \<Rightarrow> Inl (DuplicateError n)
       | None \<Rightarrow>
           ebind (eval_exprs df exprs) (\<lambda>new.
             Inr (map (\<lambda>c. case find (\<lambda>c'. col_name c' = col_name c) new of
                              None \<Rightarrow> c | Some c' \<Rightarrow> c') df)))"

definition height :: "dataframe \<Rightarrow> nat" where
  "height df = (case df of [] \<Rightarrow> 0 | c # _ \<Rightarrow> length (col_values c))"

text \<open>\<open>df.filter(mask)\<close>: the rows at which the mask is true.\<close>

definition filter_frame :: "bool list \<Rightarrow> dataframe \<Rightarrow> dataframe" where
  "filter_frame keep df =
     map (\<lambda>c. c\<lparr>col_values := map snd (filter fst (zip keep (col_values c)))\<rparr>) df"

definition not_null_mask :: "nat \<Rightarrow> column list \<Rightarrow> bool list" where
  "not_null_mask n cs = map (\<lambda>i. \<forall>c \<in> set cs. col_values c ! i \<noteq> VNull) [0..<n]"

text \<open>String functions of the \<open>.str\<close> namespace: only on a string column.\<close>

definition map_str :: "(string \<Rightarrow> string) \<Rightarrow> column \<Rightarrow> error + column" where
  "map_str f c =
     (if col_dtype c \<noteq> Utf8 then Inl InvalidOperation
      else Inr (c\<lparr>col_values := map (\<lambda>v. case v of VStr s \<Rightarrow> VStr (f s) | _ \<Rightarrow> v) (col_values c)\<rparr>))"

fun ffill :: "value \<Rightarrow> value list \<Rightarrow> value list" where
  "ffill prev [] = []"
| "ffill prev (v # vs) = (if v = VNull then prev # ffill prev vs else v # ffill v vs)"

definition forward_fill :: "column \<Rightarrow> error + column" where
  "forward_fill c = Inr (c\<lparr>col_values := ffill VNull (col_values c)\<rparr>)"

definition backward_fill :: "column \<Rightarrow> error + column" where
  "backward_fill c = Inr (c\<lparr>col_values := rev (ffill VNull (rev (col_values c)))\<rparr>)"

datatype cast_target = Native dtype | Raw "value"

text \<open>
  \<open>pl.col(col).cast(dtype, strict=strict)\<close>. A target that is not a native type is read
  by the engine; \<open>strict\<close> has to be a bool. A conversion the engine does not have
  between the two types is an error whatever \<open>strict\<close> is. Otherwise nulls stay null,
  and a value whose cast fails is an error when \<open>strict\<close> and becomes null when not.
\<close>

definition cast_series :: "engine \<Rightarrow> cast_target \<Rightarrow> value \<Rightarrow> column \<Rightarrow> error + column" where
  "cast_series E target strict c =
     (case (case target of Native d \<Rightarrow> Some d | Raw v \<Rightarrow> parse_dtype E v) of
        None \<Rightarrow> Inl TypeError
      | Some d \<Rightarrow>
          (case strict of
             VBool b \<Rightarrow>
               if \<not> cast_supported E (col_dtype c) d then Inl InvalidOperation
               else
                 (let rs = map (\<lambda>v. if v = VNull then Some VNull else cast_value E d v) (col_values c)
                  in if b \<and> None \<in> set rs then Inl InvalidOperation
                     else Inr (c\<lparr>col_dtype := d,
                                 col_values := map (\<lambda>r. case r of None \<Rightarrow> VNull | Some w \<Rightarrow> w) rs\<rparr>))
           | _ \<Rightarrow> Inl TypeError))"

section \<open>Operations (operations.py)\<close>

text \<open>\<open>params.get(k)\<close> and \<open>params.get(k, d)\<close>.\<close>

definition pget :: "params \<Rightarrow> string \<Rightarrow> value" where
  "pget ps k = (case map_of ps k of None \<Rightarrow> VNull | Some v \<Rightarrow> v)"

definition pget_default :: "params \<Rightarrow> string \<Rightarrow> value \<Rightarrow> value" where
  "pget_default ps k d = (case map_of ps k of None \<Rightarrow> d | Some v \<Rightarrow> v)"

definition numeric_dtype :: "dtype \<Rightarrow> bool" where
  "numeric_dtype d = (d \<in> set [Int8, Int16, Int32, Int64, Float32, Float64])"

definition drop_nulls :: "engine \<Rightarrow> dataframe \<Rightarrow> string list \<Rightarrow> params \<Rightarrow> error + dataframe" where
  "drop_nulls E df columns ps =
     (if columns = [] then Inr df
      else ebind (get_columns df columns) (\<lambda>cs. Inr (filter_frame (not_null_mask (height df) cs) df)))"

definition fill_nulls :: "engine \<Rightarrow> dataframe \<Rightarrow> string list \<Rightarrow> params \<Rightarrow> error + dataframe" where
  "fill_nulls E df columns ps =
     (if columns = [] then Inr df
      else
        let fill_value = pget ps ''value'';
            strategy = pget_default ps ''strategy'' (VStr ''value'')
        in if strategy = VStr ''value'' \<and> fill_value \<noteq> VNull then
             with_columns df (map (\<lambda>col. (col, fill_null_with E fill_value)) columns)
           else if strategy = VStr ''forward'' then
             with_columns df (map (\<lambda>col. (col, forward_fill)) columns)
           else if strategy = VStr ''backward'' then
             with_columns df (map (\<lambda>col. (col, backward_fill)) columns)
           else if strategy = VStr ''mean'' then
             with_columns df (map (\<lambda>col. (col, \<lambda>c. fill_null_with E (agg_mean E c) c)) columns)
           else if strategy = VStr ''median'' then
             with_columns df (map (\<lambda>col. (col, \<lambda>c. fill_null_with E (agg_median E c) c)) columns)
           else Inr df)"

text \<open>
  \<open>df.unique()\<close> takes all columns as the key and does not keep the row order;
  \<open>maintain_order\<close> is read only when columns are given.
\<close>

definition drop_duplicates :: "engine \<Rightarrow> dataframe \<Rightarrow> string list \<Rightarrow> params \<Rightarrow> error + dataframe" where
  "drop_duplicates E df columns ps =
     (if columns = [] then unique_rows E (df_columns df) (VBool False) df
      else unique_rows E columns (pget_default ps ''maintain_order'' (VBool True)) df)"

definition trim_whitespace :: "engine \<Rightarrow> dataframe \<Rightarrow> string list \<Rightarrow> params \<Rightarrow> error + dataframe" where
  "trim_whitespace E df columns ps =
     (if columns = [] then Inr df
      else ebind (cols_where (\<lambda>d. d = Utf8) df columns) (\<lambda>cs.
             with_columns df (map (\<lambda>col. (col, map_str (str_strip_chars E))) cs)))"

definition lowercase :: "engine \<Rightarrow> dataframe \<Rightarrow> string list \<Rightarrow> params \<Rightarrow> error + dataframe" where
  "lowercase E df columns ps =
     (if columns = [] then Inr df
      else ebind (cols_where (\<lambda>d. d = Utf8) df columns) (\<lambda>cs.
             with_columns df (map (\<lambda>col. (col, map_str (str_to_lowercase E))) cs)))"

definition uppercase :: "engine \<Rightarrow> dataframe \<Rightarrow> string list \<Rightarrow> params \<Rightarrow> error + dataframe" where
  "uppercase E df columns ps =
     (if columns = [] then Inr df
      else ebind (cols_where (\<lambda>d. d = Utf8) df columns) (\<lambda>cs.
             with_columns df (map (\<lambda>col. (col, map_str (str_to_uppercase E))) cs)))"

text \<open>
  \<open>replace\<close>: a regular-expression replacement on the string columns when only
  \<open>pattern\<close> is given; with \<open>value\<close>, the exact replacement \<open>{value: replacement}\<close> on every
  resolved column (a list is not hashable and cannot be the key of the mapping).
\<close>

definition replace :: "engine \<Rightarrow> dataframe \<Rightarrow> string list \<Rightarrow> params \<Rightarrow> error + dataframe" where
  "replace E df columns ps =
     (if columns = [] then Inr df
      else
        let pattern = pget ps ''pattern'';
            val = pget ps ''value'';
            replacement = pget_default ps ''replacement'' (VStr [])
        in if pattern \<noteq> VNull \<and> val = VNull then
             ebind (cols_where (\<lambda>d. d = Utf8) df columns) (\<lambda>cs.
               with_columns df (map (\<lambda>col. (col, str_replace_all E pattern replacement)) cs))
           else if val \<noteq> VNull then
             (case val of
                VList _ \<Rightarrow> Inl TypeError
              | _ \<Rightarrow> with_columns df (map (\<lambda>col. (col, replace_values E val replacement)) columns))
           else Inr df)"

text \<open>The table \<open>type_mapping\<close> of \<open>cast_type\<close>, from type names to native types.\<close>

definition type_mapping :: "(string \<times> dtype) list" where
  "type_mapping =
     [(''int'', Int64), (''float'', Float64), (''str'', Utf8), (''bool'', Boolean),
      (''date'', Date), (''datetime'', Datetime)]"

text \<open>
  \<open>type_mapping.get(target_type, target_type)\<close>: the native type of a name in the table,
  the parameter itself otherwise (a list is not hashable and cannot be looked up).
\<close>

definition type_mapping_get :: "value \<Rightarrow> error + cast_target" where
  "type_mapping_get target_type =
     (case target_type of
        VStr s \<Rightarrow> (case map_of type_mapping s of Some d \<Rightarrow> Inr (Native d) | None \<Rightarrow> Inr (Raw target_type))
      | VList _ \<Rightarrow> Inl TypeError
      | _ \<Rightarrow> Inr (Raw target_type))"

definition cast_type :: "engine \<Rightarrow> dataframe \<Rightarrow> string list \<Rightarrow> params \<Rightarrow> error + dataframe" where
  "cast_type E df columns ps =
     (if columns = [] then Inr df
      else
        let target_type = pget ps ''dtype''
        in if \<not> truthy target_type then Inr df
           else ebind (type_mapping_get target_type) (\<lambda>dtype.
                  let strict = pget_default ps ''strict'' (VBool False)
                  in with_columns df (map (\<lambda>col. (col, cast_series E dtype strict)) columns)))"

definition filter_operators :: "string list" where
  "filter_operators = [''=='', ''!='', ''>'', ''>='', ''<'', ''<='', ''in'']"

definition filter_rows :: "engine \<Rightarrow> dataframe \<Rightarrow> string list \<Rightarrow> params \<Rightarrow> error + dataframe" where
  "filter_rows E df columns ps =
     (let operator = pget_default ps ''operator'' (VStr ''=='');
          val = pget ps ''value''
      in case columns of
           [] \<Rightarrow> Inr df
         | col # _ \<Rightarrow>
             if val = VNull then Inr df
             else (case operator of
                     VStr opr \<Rightarrow>
                       if opr \<in> set filter_operators then
                         ebind (get_column df col) (\<lambda>c.
                           ebind (compare_mask E opr c val) (\<lambda>keep. Inr (filter_frame keep df)))
                       else Inr df
                   | _ \<Rightarrow> Inr df))"

text \<open>
  The loop of \<open>remove_outliers\<close>: each numeric column filters the frame left by the
  columns before it; the bounds are the engine's (\<open>iqr_mask\<close>, \<open>zscore_mask\<close>).
\<close>

fun remove_outliers_loop ::
  "engine \<Rightarrow> value \<Rightarrow> value \<Rightarrow> dataframe \<Rightarrow> string list \<Rightarrow> error + dataframe" where
  "remove_outliers_loop E method threshold df [] = Inr df"
| "remove_outliers_loop E method threshold df (col # cols) =
     (case get_column df col of
        Inl e \<Rightarrow> Inl e
      | Inr c \<Rightarrow>
          if \<not> numeric_dtype (col_dtype c) then remove_outliers_loop E method threshold df cols
          else if method = VStr ''iqr'' then
            (case iqr_mask E threshold c of
               Inl e \<Rightarrow> Inl e
             | Inr keep \<Rightarrow> remove_outliers_loop E method threshold (filter_frame keep df) cols)
          else if method = VStr ''zscore'' then
            (case zscore_mask E threshold c of
               Inl e \<Rightarrow> Inl e
             | Inr None \<Rightarrow> remove_outliers_loop E method threshold df cols
             | Inr (Some keep) \<Rightarrow> remove_outliers_loop E method threshold (filter_frame keep df) cols)
          else remove_outliers_loop E method threshold df cols)"

definition remove_outliers :: "engine \<Rightarrow> dataframe \<Rightarrow> string list \<Rightarrow> params \<Rightarrow> error + dataframe" where
  "remove_outliers E df columns ps =
     (if columns = [] then Inr df
      else remove_outliers_loop E (pget_default ps ''method'' (VStr ''iqr''))
             (pget_default ps ''threshold'' (VFloat 3 (- 1))) df columns)"

definition standardize :: "engine \<Rightarrow> dataframe \<Rightarrow> string list \<Rightarrow> params \<Rightarrow> error + dataframe" where
  "standardize E df columns ps =
     (if columns = [] then Inr df
      else ebind (cols_where numeric_dtype df columns) (\<lambda>cs.
             with_columns df (map (\<lambda>col. (col, standardize_col E)) cs)))"

text \<open>The registry \<open>OPERATIONS\<close>; \<open>OPERATIONS.get\<close> is \<open>None\<close> for \<open>validate\<close>.\<close>

type_synonym operation_fn = "engine \<Rightarrow> dataframe \<Rightarrow> string list \<Rightarrow> params \<Rightarrow> error + dataframe"

fun OPERATIONS :: "operation \<Rightarrow> operation_fn option" where
  "OPERATIONS DROP_NULLS = Some drop_nulls"
| "OPERATIONS FILL_NULLS = Some fill_nulls"
| "OPERATIONS DROP_DUPLICATES = Some drop_duplicates"
| "OPERATIONS TRIM_WHITESPACE = Some trim_whitespace"
| "OPERATIONS LOWERCASE = Some lowercase"
| "OPERATIONS UPPERCASE = Some uppercase"
| "OPERATIONS REPLACE = Some replace"
| "OPERATIONS CAST_TYPE = Some cast_type"
| "OPERATIONS FILTER = Some filter_rows"
| "OPERATIONS REMOVE_OUTLIERS = Some remove_outliers"
| "OPERATIONS STANDARDIZE = Some standardize"
| "OPERATIONS VALIDATE = None"

section \<open>The engine (engine.py)\<close>

text \<open>
  \<open>CleaningEngine._apply_rule\<close>. The call \<open>operation(df, columns, **rule.parameters)\<close>
  is a type error when a parameter is named like one of the two positional arguments.
\<close>

definition apply_rule :: "engine \<Rightarrow> dataframe \<Rightarrow> CleaningRule \<Rightarrow> error + dataframe" where
  "apply_rule E df rule =
     (case OPERATIONS (rule_operation rule) of
        None \<Rightarrow> Inl (UnknownOperation (rule_operation rule))
      | Some operation \<Rightarrow>
          ebind (select_columns E df (rule_columns rule)) (\<lambda>columns.
            if ''df'' \<in> fst ` set (rule_parameters rule) \<or> ''columns'' \<in> fst ` set (rule_parameters rule)
            then Inl TypeError
            else operation E df columns (rule_parameters rule)))"

text \<open>The loop of \<open>clean\<close> over \<open>self.config.rules\<close>.\<close>

fun apply_rules :: "engine \<Rightarrow> dataframe \<Rightarrow> CleaningRule list \<Rightarrow> error + dataframe" where
  "apply_rules E df [] = Inr df"
| "apply_rules E df (rule # rest) =
     (if \<not> rule_enabled rule then apply_rules E df rest
      else (case apply_rule E df rule of
              Inl e \<Rightarrow> Inl e
            | Inr df' \<Rightarrow> apply_rules E df' rest))"

text \<open>\<open>SchemaValidator.validate\<close>.\<close>

definition validate :: "engine \<Rightarrow> dataframe \<Rightarrow> DataContract option \<Rightarrow> error + dataframe" where
  "validate E df contract =
     (case contract of None \<Rightarrow> Inr df | Some c \<Rightarrow> schema_validate E c df)"

record CleaningEngine =
  config :: "RuleConfig option"

text \<open>\<open>CleaningEngine.clean(df, validate_input, validate_output)\<close>.\<close>

definition clean ::
  "engine \<Rightarrow> CleaningEngine \<Rightarrow> dataframe \<Rightarrow> bool \<Rightarrow> bool \<Rightarrow> error + dataframe" where
  "clean E self df validate_input validate_output =
     (case config self of
        None \<Rightarrow> Inl ConfigNotLoaded
      | Some cfg \<Rightarrow>
          ebind (if validate_input \<and> input_contract cfg \<noteq> None
                 then validate E df (input_contract cfg) else Inr df) (\<lambda>df1.
          ebind (apply_rules E df1 (rules cfg)) (\<lambda>df2.
            if validate_output \<and> output_contract cfg \<noteq> None
            then validate E df2 (output_contract cfg) else Inr df2)))"

section \<open>Frames as objects\<close>

text \<open>
  The same call with frames as objects: a heap of frames under references, the next
  unused reference in \<open>fresh\<close>. The input of \<open>clean\<close> is a reference to the caller's
  frame. Every method the source calls on a frame (\<open>with_columns\<close>, \<open>filter\<close>, \<open>unique\<close>,
  \<open>drop_nulls\<close>, the contract engine's \<open>validate\<close>) answers with a frame and writes to none:
  the answer is put under a fresh reference (whether it is the object given or a new one
  is not told apart), and the local name \<open>df\<close> of \<open>clean\<close> is bound to it.
\<close>

record heap =
  cells :: "nat \<Rightarrow> dataframe"
  fresh :: nat

definition alloc :: "heap \<Rightarrow> dataframe \<Rightarrow> heap \<times> nat" where
  "alloc h v = (h\<lparr>cells := (cells h)(fresh h := v), fresh := Suc (fresh h)\<rparr>, fresh h)"

definition returned :: "heap \<Rightarrow> error + dataframe \<Rightarrow> heap \<times> (error + nat)" where
  "returned h res = (case res of Inl e \<Rightarrow> (h, Inl e) | Inr v \<Rightarrow> (fst (alloc h v), Inr (snd (alloc h v))))"

fun apply_rules_on :: "engine \<Rightarrow> heap \<Rightarrow> nat \<Rightarrow> CleaningRule list \<Rightarrow> heap \<times> (error + nat)" where
  "apply_rules_on E h df [] = (h, Inr df)"
| "apply_rules_on E h df (rule # rest) =
     (if \<not> rule_enabled rule then apply_rules_on E h df rest
      else (case snd (returned h (apply_rule E (cells h df) rule)) of
              Inl e \<Rightarrow> (fst (returned h (apply_rule E (cells h df) rule)), Inl e)
            | Inr df' \<Rightarrow>
                apply_rules_on E (fst (returned h (apply_rule E (cells h df) rule))) df' rest))"

definition clean_on ::
  "engine \<Rightarrow> CleaningEngine \<Rightarrow> heap \<Rightarrow> nat \<Rightarrow> bool \<Rightarrow> bool \<Rightarrow> heap \<times> (error + nat)" where
  "clean_on E self h df validate_input validate_output =
     (case config self of
        None \<Rightarrow> (h, Inl ConfigNotLoaded)
      | Some cfg \<Rightarrow>
          (let s1 = (if validate_input \<and> input_contract cfg \<noteq> None
                     then returned h (validate E (cells h df) (input_contract cfg))
                     else (h, Inr df))
           in case snd s1 of
                Inl e \<Rightarrow> (fst s1, Inl e)
              | Inr df1 \<Rightarrow>
                  (let s2 = apply_rules_on E (fst s1) df1 (rules cfg)
                   in case snd s2 of
                        Inl e \<Rightarrow> (fst s2, Inl e)
                      | Inr df2 \<Rightarrow>
                          if validate_output \<and> output_contract cfg \<noteq> None
                          then returned (fst s2) (validate E (cells (fst s2) df2) (output_contract cfg))
                          else (fst s2, Inr df2))))"

section \<open>The store (storage.py)\<close>









section \<open>An engine for the examples\<close>

text \<open>
  One behaviour of the collaborators, on ASCII strings, integers and booleans, for
  evaluating the core on concrete frames:
  \<^item> patterns of the fragment above; the three string functions; replacement of the
    occurrences of a literal pattern (no special character, no group reference);
  \<^item> exact replacement and filling of nulls with a value of the column's own type; a
    float filled into a Boolean or integer column turns it into a \<open>Float64\<close> column
    (the common supertype);
  \<^item> the mean of the non-null integers or booleans of a column when it is a whole
    number, their median, null for a column without such values;
  \<^item> casts of strings to 64-bit integers and of a column to its own type.
  Every other request is refused with an error (a null for a mean that is not whole),
  also where the engine proper has an answer; no contract is violated.
\<close>

definition ascii_lower :: "char \<Rightarrow> char" where
  "ascii_lower c =
     (case map_of (zip ''ABCDEFGHIJKLMNOPQRSTUVWXYZ'' ''abcdefghijklmnopqrstuvwxyz'') c of
        None \<Rightarrow> c | Some d \<Rightarrow> d)"

definition ascii_upper :: "char \<Rightarrow> char" where
  "ascii_upper c =
     (case map_of (zip ''abcdefghijklmnopqrstuvwxyz'' ''ABCDEFGHIJKLMNOPQRSTUVWXYZ'') c of
        None \<Rightarrow> c | Some d \<Rightarrow> d)"

definition ascii_strip :: "string \<Rightarrow> string" where
  "ascii_strip s = rev (dropWhile (cset_mem CSpace) (rev (dropWhile (cset_mem CSpace) s)))"

fun parse_digits :: "int \<Rightarrow> string \<Rightarrow> int option" where
  "parse_digits acc [] = Some acc"
| "parse_digits acc (c # cs) =
     (case map_of (zip ''0123456789'' [0, 1, 2, 3, 4, 5, 6, 7, 8, 9]) c of
        None \<Rightarrow> None
      | Some d \<Rightarrow> parse_digits (10 * acc + d) cs)"

definition parse_int :: "string \<Rightarrow> int option" where
  "parse_int s =
     (case s of
        [] \<Rightarrow> None
      | c # cs \<Rightarrow>
          if c = CHR ''-'' then (if cs = [] then None else map_option uminus (parse_digits 0 cs))
          else if c = CHR ''+'' then (if cs = [] then None else parse_digits 0 cs)
          else parse_digits 0 s)"

definition example_cast_value :: "dtype \<Rightarrow> value \<Rightarrow> value option" where
  "example_cast_value d v =
     (if d = Int64 then
        (case v of VInt i \<Rightarrow> Some (VInt i) | VStr s \<Rightarrow> map_option VInt (parse_int s) | _ \<Rightarrow> None)
      else if d = Utf8 then (case v of VStr s \<Rightarrow> Some (VStr s) | _ \<Rightarrow> None)
      else None)"

definition integer_dtype :: "dtype \<Rightarrow> bool" where
  "integer_dtype d = (d \<in> set [Int8, Int16, Int32, Int64, UInt8, UInt16, UInt32, UInt64])"

text \<open>Whether a literal is of the type of a column.\<close>

fun literal_of :: "dtype \<Rightarrow> value \<Rightarrow> bool" where
  "literal_of d (VInt i) = integer_dtype d"
| "literal_of d (VBool b) = (d = Boolean)"
| "literal_of d (VStr s) = (d = Utf8)"
| "literal_of d (VFloat m e) = (d = Float32 \<or> d = Float64)"
| "literal_of d v = False"

definition whole_values :: "column \<Rightarrow> int list" where
  "whole_values c =
     concat (map (\<lambda>v. case v of VInt i \<Rightarrow> [i] | VBool b \<Rightarrow> [if b then 1 else 0] | _ \<Rightarrow> [])
                 (col_values c))"

definition example_mean :: "column \<Rightarrow> value" where
  "example_mean c =
     (let xs = whole_values c
      in if xs = [] then VNull
         else if sum_list xs mod int (length xs) = 0 then VFloat (sum_list xs div int (length xs)) 0
         else VNull)"

definition example_median :: "column \<Rightarrow> value" where
  "example_median c =
     (let xs = sort (whole_values c); n = length xs
      in if xs = [] then VNull
         else if odd n then VFloat (xs ! (n div 2)) 0
         else VFloat (xs ! (n div 2 - 1) + xs ! (n div 2)) (- 1))"

definition to_float :: "value \<Rightarrow> value" where
  "to_float v = (case v of VInt i \<Rightarrow> VFloat i 0 | VBool b \<Rightarrow> VFloat (if b then 1 else 0) 0 | _ \<Rightarrow> v)"

definition example_fill_null_with :: "value \<Rightarrow> column \<Rightarrow> error + column" where
  "example_fill_null_with x c =
     (if x = VNull then Inr c
      else if literal_of (col_dtype c) x then
        Inr (c\<lparr>col_values := map (\<lambda>v. if v = VNull then x else v) (col_values c)\<rparr>)
      else (case x of
              VFloat m e \<Rightarrow>
                if integer_dtype (col_dtype c) \<or> col_dtype c = Boolean then
                  Inr (c\<lparr>col_dtype := Float64,
                        col_values := map (\<lambda>v. if v = VNull then x else to_float v) (col_values c)\<rparr>)
                else Inl InvalidOperation
            | _ \<Rightarrow> Inl InvalidOperation))"

definition example_replace_values :: "value \<Rightarrow> value \<Rightarrow> column \<Rightarrow> error + column" where
  "example_replace_values old new c =
     (if literal_of (col_dtype c) old \<and> literal_of (col_dtype c) new then
        Inr (c\<lparr>col_values := map (\<lambda>v. if v = old then new else v) (col_values c)\<rparr>)
      else Inl InvalidOperation)"

definition example_cast_supported :: "dtype \<Rightarrow> dtype \<Rightarrow> bool" where
  "example_cast_supported from to = (from = to \<or> (from = Utf8 \<and> to = Int64))"

text \<open>
  Replacing the occurrences of a literal word, from left to right; \<open>k\<close> counts the
  characters of an occurrence still to be passed over.
\<close>

fun replace_literal :: "nat \<Rightarrow> string \<Rightarrow> string \<Rightarrow> string \<Rightarrow> string" where
  "replace_literal k p r [] = []"
| "replace_literal (Suc k) p r (c # cs) = replace_literal k p r cs"
| "replace_literal 0 p r (c # cs) =
     (if take (length p) (c # cs) = p then r @ replace_literal (length p - 1) p r cs
      else c # replace_literal 0 p r cs)"

definition example_replace_all :: "value \<Rightarrow> value \<Rightarrow> column \<Rightarrow> error + column" where
  "example_replace_all pattern replacement c =
     (case (pattern, replacement) of
        (VStr p, VStr r) \<Rightarrow>
          if p = [] \<or> list_ex re_special p \<or> CHR ''$'' \<in> set r \<or> col_dtype c \<noteq> Utf8
          then Inl InvalidOperation
          else Inr (c\<lparr>col_values :=
                 map (\<lambda>v. case v of VStr s \<Rightarrow> VStr (replace_literal 0 p r s) | _ \<Rightarrow> v)
                     (col_values c)\<rparr>)
      | _ \<Rightarrow> Inl InvalidOperation)"

definition example_engine :: engine where
  "example_engine =
     \<lparr>re_compile = re_compile_fragment,
      str_strip_chars = ascii_strip,
      str_to_lowercase = map ascii_lower,
      str_to_uppercase = map ascii_upper,
      str_replace_all = example_replace_all,
      replace_values = example_replace_values,
      fill_null_with = example_fill_null_with,
      agg_mean = example_mean,
      agg_median = example_median,
      cast_supported = example_cast_supported,
      cast_value = example_cast_value,
      parse_dtype = (\<lambda>v. None),
      compare_mask = (\<lambda>opr c v. Inl InvalidOperation),
      iqr_mask = (\<lambda>t c. Inl InvalidOperation),
      zscore_mask = (\<lambda>t c. Inl InvalidOperation),
      standardize_col = (\<lambda>c. Inl InvalidOperation),
      unique_rows = (\<lambda>key keep df. Inl InvalidOperation),
      schema_validate = (\<lambda>contract df. Inr df)\<rparr>"



section \<open>Example data\<close>

text \<open>Frames, rules and a pattern for evaluating the core on concrete inputs.\<close>

definition text_frame :: dataframe where
  "text_frame = [\<lparr>col_name = ''text'', col_dtype = Utf8, col_values = [VStr ''HELLO'']\<rparr>]"

definition mixed_frame :: dataframe where
  "mixed_frame =
     [\<lparr>col_name = ''a'', col_dtype = Utf8, col_values = [VStr ''Ab'', VNull]\<rparr>,
      \<lparr>col_name = ''n'', col_dtype = Int64, col_values = [VInt 1, VInt 3]\<rparr>,
      \<lparr>col_name = ''flag'', col_dtype = Boolean, col_values = [VBool True, VNull]\<rparr>]"

definition numbers_frame :: dataframe where
  "numbers_frame =
     [\<lparr>col_name = ''numbers'', col_dtype = Utf8, col_values = [VStr ''12'', VStr ''x'', VNull]\<rparr>]"

definition pattern_frame :: dataframe where
  "pattern_frame =
     [\<lparr>col_name = ''xcol_1'', col_dtype = Utf8, col_values = [VStr ''A'']\<rparr>,
      \<lparr>col_name = ''col_1'', col_dtype = Utf8, col_values = [VStr ''B'']\<rparr>,
      \<lparr>col_name = ''col_22'', col_dtype = Utf8, col_values = [VStr ''C'']\<rparr>,
      \<lparr>col_name = ''other'', col_dtype = Utf8, col_values = [VStr ''D'']\<rparr>]"

definition col_digits_pattern :: string where
  "col_digits_pattern = ''col_'' @ [CHR 0x5C] @ ''d+''"

definition col_digit_end_pattern :: string where
  "col_digit_end_pattern = ''col_'' @ [CHR 0x5C] @ ''d$''"

definition col_digits_regex :: regex where
  "col_digits_regex =
     Seq (Atom (CChar CHR ''c'')) (Seq (Atom (CChar CHR ''o'')) (Seq (Atom (CChar CHR ''l''))
       (Seq (Atom (CChar CHR ''_'')) (Seq (Seq (Atom CDigit) (Star (Atom CDigit))) Epsilon))))"

definition all_columns :: ColumnSelector where
  "all_columns = \<lparr>sel_columns = None, sel_pattern = None, sel_all = True\<rparr>"

definition lowercase_rule :: "bool \<Rightarrow> int \<Rightarrow> CleaningRule" where
  "lowercase_rule en ord =
     \<lparr>rule_name = ''lowercase'', rule_operation = LOWERCASE,
      rule_columns = \<lparr>sel_columns = Some [''text''], sel_pattern = None, sel_all = False\<rparr>,
      rule_parameters = [], rule_enabled = en, rule_order = ord\<rparr>"

definition validate_rule :: "int \<Rightarrow> CleaningRule" where
  "validate_rule ord =
     \<lparr>rule_name = ''check'', rule_operation = VALIDATE, rule_columns = all_columns,
      rule_parameters = [], rule_enabled = True, rule_order = ord\<rparr>"

definition strict_cast_rule :: "int \<Rightarrow> CleaningRule" where
  "strict_cast_rule ord =
     \<lparr>rule_name = ''cast_to_int'', rule_operation = CAST_TYPE,
      rule_columns = \<lparr>sel_columns = Some [''text''], sel_pattern = None, sel_all = False\<rparr>,
      rule_parameters = [(''dtype'', VStr ''int''), (''strict'', VBool True)],
      rule_enabled = True, rule_order = ord\<rparr>"

definition example_config :: "CleaningRule list \<Rightarrow> RuleConfig" where
  "example_config rs = mk_RuleConfig ''1.0'' ''example'' None None None rs []"

section \<open>Evaluating the examples\<close>

lemmas ex_defs = text_frame_def mixed_frame_def numbers_frame_def pattern_frame_def
  col_digit_end_pattern_def col_digits_pattern_def col_digits_regex_def all_columns_def lowercase_rule_def validate_rule_def
  strict_cast_rule_def example_config_def mk_RuleConfig_def sort_rules_by_order_def

lemmas engine_defs = example_engine_def example_cast_value_def example_fill_null_with_def
  example_replace_values_def example_mean_def example_median_def whole_values_def to_float_def
  integer_dtype_def parse_int_def ascii_lower_def ascii_upper_def ascii_strip_def
  re_compile_fragment_def re_special_def re_escape_def fragment_matcher_def pattern_match_def
  pattern_search_def example_cast_supported_def example_replace_all_def

lemmas op_defs = clean_def apply_rule_def select_columns_def truthy_opt_def ebind_def
  df_columns_def get_column_def with_columns_def
  lowercase_def cast_type_def replace_def fill_nulls_def map_str_def cast_series_def
  type_mapping_get_def type_mapping_def pget_def pget_default_def

section \<open>The rule model: selectors and rule order\<close>

text \<open>
  C5, as stated, fails: a selector given an empty \<open>columns\<close> list together with a
  pattern has two of its three modes set and is constructed without error.
\<close>

theorem C5_selector_two_modes_set_counterexample:
  "mk_ColumnSelector (Some []) (Some ''a.*'') False =
     Inr \<lparr>sel_columns = Some [], sel_pattern = Some ''a.*'', sel_all = False\<rparr>"
  by (simp add: mk_ColumnSelector_def validate_selector_def truthy_opt_def)

text \<open>
  C5, amended: when more than one of the three modes is set to a truthy value (a
  non-empty \<open>columns\<close> list, a non-empty pattern, \<open>all\<close> true), the construction of a
  \<open>ColumnSelector\<close> fails with a validation error; column resolution, at apply time,
  never raises a validation error.
\<close>

theorem C5_selector_mutual_exclusion:
  assumes "(truthy_opt p \<and> truthy_opt cs) \<or> (truthy_opt p \<and> a) \<or> (truthy_opt cs \<and> a)"
  shows "(\<exists>k. mk_ColumnSelector cs p a = Inl (ValidationError k)) \<and>
         (\<forall>E df s k. select_columns E df s \<noteq> Inl (ValidationError k))"
  using assms
  by (auto simp: mk_ColumnSelector_def validate_selector_def select_columns_def
           split: option.splits)

theorem C5_selector_mutual_exclusion_witness:
  "(truthy_opt (Some ''b.*'') \<and> truthy_opt (Some [''a''])) \<and>
   (\<exists>k. mk_ColumnSelector (Some [''a'']) (Some ''b.*'') False = Inl (ValidationError k))"
  using C5_selector_mutual_exclusion [of "Some ''b.*''" "Some [''a'']" False]
  by (simp add: truthy_opt_def)

text \<open>
  C6: the rules of a constructed \<open>RuleConfig\<close> are sorted by \<open>order\<close>, non-decreasing;
  the rules of each \<open>order\<close> value are in their declaration order; the sequence is a
  rearrangement of the rules given.
\<close>

theorem C6_rules_sorted_stable:
  "sorted (map rule_order (rules (mk_RuleConfig ver nm d ic oc rs obs))) \<and>
   (\<forall>k. filter (\<lambda>r. rule_order r = k) (rules (mk_RuleConfig ver nm d ic oc rs obs)) =
        filter (\<lambda>r. rule_order r = k) rs) \<and>
   mset (rules (mk_RuleConfig ver nm d ic oc rs obs)) = mset rs"
  by (simp add: mk_RuleConfig_def sort_rules_by_order_def sort_key_stable)

text \<open>
  C9: a selector constructed with \<open>columns = []\<close>, no pattern and \<open>all\<close> false resolves
  to every column of the dataset; an empty \<open>columns\<close> list passes the construction check
  also with a pattern, and also with \<open>all\<close>.
\<close>

theorem C9_empty_columns_list:
  "mk_ColumnSelector (Some []) None False =
     Inr \<lparr>sel_columns = Some [], sel_pattern = None, sel_all = False\<rparr> \<and>
   select_columns E df \<lparr>sel_columns = Some [], sel_pattern = None, sel_all = False\<rparr> =
     Inr (df_columns df) \<and>
   mk_ColumnSelector (Some []) (Some p) False =
     Inr \<lparr>sel_columns = Some [], sel_pattern = Some p, sel_all = False\<rparr> \<and>
   mk_ColumnSelector (Some []) None True =
     Inr \<lparr>sel_columns = Some [], sel_pattern = None, sel_all = True\<rparr>"
  by (simp add: mk_ColumnSelector_def validate_selector_def truthy_opt_def select_columns_def)

section \<open>Column patterns\<close>

lemma nil_in_conc: "[] \<in> conc A B \<longleftrightarrow> [] \<in> A \<and> [] \<in> B"
  by (auto simp: conc_def)

lemma cons_in_conc:
  "c # w \<in> conc A B \<longleftrightarrow> (\<exists>u v. w = u @ v \<and> c # u \<in> A \<and> v \<in> B) \<or> ([] \<in> A \<and> c # w \<in> B)"
proof
  assume "c # w \<in> conc A B"
  then obtain u v where uv: "c # w = u @ v" "u \<in> A" "v \<in> B"
    by (auto simp: conc_def)
  show "(\<exists>u v. w = u @ v \<and> c # u \<in> A \<and> v \<in> B) \<or> ([] \<in> A \<and> c # w \<in> B)"
  proof (cases u)
    case Nil
    with uv show ?thesis by simp
  next
    case (Cons a u')
    with uv show ?thesis by auto
  qed
next
  assume "(\<exists>u v. w = u @ v \<and> c # u \<in> A \<and> v \<in> B) \<or> ([] \<in> A \<and> c # w \<in> B)"
  then show "c # w \<in> conc A B"
  proof
    assume "\<exists>u v. w = u @ v \<and> c # u \<in> A \<and> v \<in> B"
    then obtain u v where "w = u @ v" "c # u \<in> A" "v \<in> B" by blast
    then have "c # w = (c # u) @ v" by simp
    with \<open>c # u \<in> A\<close> \<open>v \<in> B\<close> show ?thesis unfolding conc_def by blast
  next
    assume "[] \<in> A \<and> c # w \<in> B"
    then have "c # w = [] @ (c # w)" "[] \<in> A" "c # w \<in> B" by simp_all
    then show ?thesis unfolding conc_def by blast
  qed
qed

lemma star_cons_split:
  assumes "x \<in> star A" "x = c # w"
  shows "\<exists>u v. w = u @ v \<and> c # u \<in> A \<and> v \<in> star A"
  using assms
proof (induction arbitrary: w rule: star.induct)
  case star_nil
  then show ?case by simp
next
  case (star_step u v)
  show ?case
  proof (cases u)
    case Nil
    with star_step show ?thesis by simp
  next
    case (Cons a u')
    with star_step.prems have "a = c" "w = u' @ v" by simp_all
    with Cons star_step.hyps show ?thesis by blast
  qed
qed

lemma cons_in_star:
  "c # w \<in> star A \<longleftrightarrow> (\<exists>u v. w = u @ v \<and> c # u \<in> A \<and> v \<in> star A)"
proof
  assume "c # w \<in> star A"
  then show "\<exists>u v. w = u @ v \<and> c # u \<in> A \<and> v \<in> star A"
    by (rule star_cons_split) simp
next
  assume "\<exists>u v. w = u @ v \<and> c # u \<in> A \<and> v \<in> star A"
  then obtain u v where "w = u @ v" "c # u \<in> A" "v \<in> star A" by blast
  then show "c # w \<in> star A"
    using star_step [of "c # u" A v] by simp
qed

lemma nullable_lang: "nullable r \<longleftrightarrow> [] \<in> lang r"
  by (induction r) (auto simp: nil_in_conc intro: star_nil)

lemma conc_deriv:
  assumes "\<And>w. w \<in> D \<longleftrightarrow> c # w \<in> A"
  shows "w \<in> conc D B \<longleftrightarrow> (\<exists>u v. w = u @ v \<and> c # u \<in> A \<and> v \<in> B)"
  using assms by (auto simp: conc_def)

lemma deriv_lang: "w \<in> lang (deriv c r) \<longleftrightarrow> c # w \<in> lang r"
proof (induction r arbitrary: w)
  case (Seq r s)
  have "w \<in> conc (lang (deriv c r)) (lang s) \<longleftrightarrow>
        (\<exists>u v. w = u @ v \<and> c # u \<in> lang r \<and> v \<in> lang s)"
    by (rule conc_deriv) (rule Seq.IH(1))
  then show ?case
    by (simp add: cons_in_conc nullable_lang Seq.IH(2))
next
  case (Star r)
  have "w \<in> conc (lang (deriv c r)) (star (lang r)) \<longleftrightarrow>
        (\<exists>u v. w = u @ v \<and> c # u \<in> lang r \<and> v \<in> star (lang r))"
    by (rule conc_deriv) (rule Star.IH)
  then show ?case
    by (simp add: cons_in_star)
qed auto

lemma re_full_lang: "re_full r w \<longleftrightarrow> w \<in> lang r"
  by (induction w arbitrary: r) (simp_all add: nullable_lang deriv_lang)

lemma pattern_match_iff: "pattern_match m s \<longleftrightarrow> (\<exists>j \<le> length s. m s 0 j)"
proof -
  have "set [0..<Suc (length s)] = {j. j \<le> length s}"
    by (auto simp: less_Suc_eq_le)
  then show ?thesis
    unfolding pattern_match_def list_ex_iff by blast
qed

lemma fragment_match_prefix:
  "pattern_match (fragment_matcher False r False) s \<longleftrightarrow>
     (\<exists>pre suf. s = pre @ suf \<and> pre \<in> lang r)"
proof
  assume "pattern_match (fragment_matcher False r False) s"
  then obtain j where "j \<le> length s" "take j s \<in> lang r"
    by (auto simp: pattern_match_iff fragment_matcher_def re_full_lang)
  then have "s = take j s @ drop j s \<and> take j s \<in> lang r" by simp
  then show "\<exists>pre suf. s = pre @ suf \<and> pre \<in> lang r" by blast
next
  assume "\<exists>pre suf. s = pre @ suf \<and> pre \<in> lang r"
  then obtain pre suf where "s = pre @ suf" "pre \<in> lang r" by blast
  then have "length pre \<le> length s \<and> fragment_matcher False r False s 0 (length pre)"
    by (simp add: fragment_matcher_def re_full_lang)
  then show "pattern_match (fragment_matcher False r False) s"
    unfolding pattern_match_iff by blast
qed

text \<open>
  C7: a selector in pattern mode (not \<open>all\<close>, no non-empty \<open>columns\<close> list) with a pattern
  that compiles resolves to exactly the columns in whose name the pattern has a match
  starting at the first character, in the order of the dataset's columns; a match that
  starts later in the name does not count, and whatever the pattern asks of the rest of
  the name (\<open>$\<close>, a boundary, a look-ahead) is part of the match. The empty pattern
  matches the empty word at the start of every name. For a regular expression without
  anchors this is: some prefix of the name is a word of the expression.
\<close>

theorem C7_pattern_prefix_anchored:
  assumes "\<not> sel_all s" "\<not> truthy_opt (sel_columns s)" "sel_pattern s = Some p"
    "re_compile E p = Some m" "p = [] \<Longrightarrow> \<forall>col. m col 0 0"
  shows "select_columns E df s = Inr [col \<leftarrow> df_columns df. \<exists>j \<le> length col. m col 0 j] \<and>
         (m = fragment_matcher False r False \<longrightarrow>
            select_columns E df s =
              Inr [col \<leftarrow> df_columns df. \<exists>pre suf. col = pre @ suf \<and> pre \<in> lang r])"
proof -
  have sel: "select_columns E df s = Inr [col \<leftarrow> df_columns df. \<exists>j \<le> length col. m col 0 j]"
  proof (cases "p = []")
    case True
    with assms(5) have "\<And>col. \<exists>j \<le> length col. m col 0 j" by blast
    with True assms(1-4) show ?thesis by (simp add: select_columns_def truthy_opt_def)
  next
    case False
    with assms(1-4) show ?thesis
      by (simp add: select_columns_def truthy_opt_def pattern_match_iff cong: filter_cong)
  qed
  have "(\<exists>j \<le> length col. m col 0 j) \<longleftrightarrow> (\<exists>pre suf. col = pre @ suf \<and> pre \<in> lang r)"
    if "m = fragment_matcher False r False" for col
    using that fragment_match_prefix [of r col] by (simp add: pattern_match_iff)
  with sel show ?thesis by (simp cong: filter_cong)
qed

theorem C7_pattern_prefix_anchored_witness:
  "re_compile example_engine col_digits_pattern =
     Some (fragment_matcher False col_digits_regex False) \<and>
   select_columns example_engine pattern_frame
     \<lparr>sel_columns = None, sel_pattern = Some col_digits_pattern, sel_all = False\<rparr> =
     Inr [col \<leftarrow> df_columns pattern_frame.
            \<exists>j \<le> length col. fragment_matcher False col_digits_regex False col 0 j] \<and>
   select_columns example_engine pattern_frame
     \<lparr>sel_columns = None, sel_pattern = Some col_digits_pattern, sel_all = False\<rparr> =
     Inr [col \<leftarrow> df_columns pattern_frame. \<exists>pre suf. col = pre @ suf \<and> pre \<in> lang col_digits_regex]"
proof -
  let ?s = "\<lparr>sel_columns = None, sel_pattern = Some col_digits_pattern, sel_all = False\<rparr>"
  let ?m = "fragment_matcher False col_digits_regex False"
  have h: "\<not> sel_all ?s" "\<not> truthy_opt (sel_columns ?s)" "sel_pattern ?s = Some col_digits_pattern"
    by (simp_all add: truthy_opt_def)
  have r: "re_compile example_engine col_digits_pattern = Some ?m"
    by (simp add: example_engine_def re_compile_fragment_def col_digits_pattern_def
          col_digits_regex_def re_special_def re_escape_def)
  have n: "col_digits_pattern = [] \<Longrightarrow> \<forall>col. ?m col 0 0"
    by (simp add: col_digits_pattern_def)
  have t: "select_columns example_engine pattern_frame ?s =
        Inr [col \<leftarrow> df_columns pattern_frame. \<exists>j \<le> length col. ?m col 0 j] \<and>
      (?m = fragment_matcher False col_digits_regex False \<longrightarrow>
         select_columns example_engine pattern_frame ?s =
           Inr [col \<leftarrow> df_columns pattern_frame.
                  \<exists>pre suf. col = pre @ suf \<and> pre \<in> lang col_digits_regex])"
    by (rule C7_pattern_prefix_anchored [OF h r]) (rule n)
  from r t [THEN conjunct1] t [THEN conjunct2, THEN mp, OF refl] show ?thesis by (intro conjI)
qed

text \<open>
  The pattern \<open>col_\d+\<close> selects \<open>col_1\<close> and \<open>col_22\<close> and not \<open>xcol_1\<close>, although a match
  starts at the second character of \<open>xcol_1\<close>; the pattern \<open>col_\d$\<close> selects \<open>col_1\<close>
  and not \<open>col_22\<close>.
\<close>

lemma pattern_example:
  "select_columns example_engine pattern_frame
     \<lparr>sel_columns = None, sel_pattern = Some col_digits_pattern, sel_all = False\<rparr> =
     Inr [''col_1'', ''col_22''] \<and>
   pattern_search (fragment_matcher False col_digits_regex False) ''xcol_1'' \<and>
   \<not> pattern_match (fragment_matcher False col_digits_regex False) ''xcol_1'' \<and>
   select_columns example_engine pattern_frame
     \<lparr>sel_columns = None, sel_pattern = Some col_digit_end_pattern, sel_all = False\<rparr> =
     Inr [''col_1'']"
  by (simp add: ex_defs engine_defs select_columns_def truthy_opt_def df_columns_def)

section \<open>The pipeline\<close>

lemma apply_rules_enabled: "apply_rules E df rs = apply_rules E df (filter rule_enabled rs)"
  by (induction rs arbitrary: df) (auto split: sum.splits)

lemma clean_rules_cong:
  assumes "filter rule_enabled (rules cfg) = filter rule_enabled (rules cfg')"
    "input_contract cfg = input_contract cfg'" "output_contract cfg = output_contract cfg'"
  shows "clean E \<lparr>config = Some cfg\<rparr> df vi vo = clean E \<lparr>config = Some cfg'\<rparr> df vi vo"
proof -
  have run: "apply_rules E d (rules cfg) = apply_rules E d (rules cfg')" for d
    using assms(1) apply_rules_enabled [of E d "rules cfg"] apply_rules_enabled [of E d "rules cfg'"]
    by simp
  show ?thesis by (simp add: clean_def assms(2) assms(3) run cong: if_cong)
qed

text \<open>
  C3: for a rule \<open>r\<close> with \<open>enabled\<close> false, \<open>clean\<close> on a configuration with \<open>r\<close> among
  its rules gives the result (data or error) it gives without \<open>r\<close>: for the rules of the
  configuration as they are, and for a configuration constructed from the rule list with
  and without \<open>r\<close>. The disabled rule is never applied and its selector never resolved.
\<close>

theorem C3_disabled_rule_removed:
  assumes "\<not> rule_enabled r"
  shows "clean E \<lparr>config = Some (cfg\<lparr>rules := xs @ r # ys\<rparr>)\<rparr> df vi vo =
         clean E \<lparr>config = Some (cfg\<lparr>rules := xs @ ys\<rparr>)\<rparr> df vi vo \<and>
         clean E \<lparr>config = Some (mk_RuleConfig ver nm d ic oc (xs @ r # ys) obs)\<rparr> df vi vo =
         clean E \<lparr>config = Some (mk_RuleConfig ver nm d ic oc (xs @ ys) obs)\<rparr> df vi vo"
proof
  show "clean E \<lparr>config = Some (cfg\<lparr>rules := xs @ r # ys\<rparr>)\<rparr> df vi vo =
        clean E \<lparr>config = Some (cfg\<lparr>rules := xs @ ys\<rparr>)\<rparr> df vi vo"
    using assms by (intro clean_rules_cong) simp_all
next
  have "filter rule_enabled (sort_key rule_order (xs @ r # ys)) =
        filter rule_enabled (sort_key rule_order (xs @ ys))"
    using assms by (simp add: filter_sort)
  then show "clean E \<lparr>config = Some (mk_RuleConfig ver nm d ic oc (xs @ r # ys) obs)\<rparr> df vi vo =
        clean E \<lparr>config = Some (mk_RuleConfig ver nm d ic oc (xs @ ys) obs)\<rparr> df vi vo"
    by (intro clean_rules_cong) (simp_all add: mk_RuleConfig_def sort_rules_by_order_def)
qed

theorem C3_disabled_rule_removed_witness:
  "\<not> rule_enabled (lowercase_rule False 0) \<and>
   clean example_engine \<lparr>config = Some (example_config ([] @ lowercase_rule False 0 # []))\<rparr>
     text_frame False False =
   clean example_engine \<lparr>config = Some (example_config ([] @ []))\<rparr> text_frame False False \<and>
   clean example_engine \<lparr>config = Some (example_config ([] @ []))\<rparr> text_frame False False =
     Inr text_frame"
proof -
  have h: "\<not> rule_enabled (lowercase_rule False 0)" by (simp add: lowercase_rule_def)
  have e: "clean example_engine \<lparr>config = Some (example_config ([] @ lowercase_rule False 0 # []))\<rparr>
     text_frame False False =
   clean example_engine \<lparr>config = Some (example_config ([] @ []))\<rparr> text_frame False False"
    unfolding example_config_def by (rule C3_disabled_rule_removed [OF h, THEN conjunct2])
  have r: "clean example_engine \<lparr>config = Some (example_config ([] @ []))\<rparr> text_frame False False =
     Inr text_frame"
    by (simp add: ex_defs op_defs)
  from h e r show ?thesis by simp
qed

lemma apply_rules_unknown_fails:
  assumes "r \<in> set rs" "rule_enabled r" "OPERATIONS (rule_operation r) = None"
  shows "\<exists>e. apply_rules E df rs = Inl e"
  using assms
proof (induction rs arbitrary: df)
  case Nil
  then show ?case by simp
next
  case (Cons a rs)
  show ?case
  proof (cases "a = r")
    case True
    with Cons.prems show ?thesis by (simp add: apply_rule_def)
  next
    case False
    with Cons show ?thesis by (auto split: sum.splits)
  qed
qed

lemma apply_rules_append:
  "apply_rules E df (pre @ post) =
     (case apply_rules E df pre of Inl e \<Rightarrow> Inl e | Inr df' \<Rightarrow> apply_rules E df' post)"
  by (induction pre arbitrary: df) (auto split: sum.splits)

text \<open>
  C2, as stated, fails: the rules run in order and the first failure ends the call, so a
  rule that fails before the unknown operation is reached decides the error. Here a
  strict cast of \<open>HELLO\<close> to an integer runs first (order 0) and \<open>clean\<close> fails with the
  engine's error, not with the unknown-operation error of the rule of order 1.
\<close>

theorem C2_earlier_failure_counterexample:
  "clean example_engine \<lparr>config = Some (example_config [validate_rule 1, strict_cast_rule 0])\<rparr>
     text_frame True True = Inl InvalidOperation"
  by (simp add: ex_defs engine_defs op_defs)

lemma clean_unknown_error:
  assumes "rule_enabled r" "OPERATIONS (rule_operation r) = None" "rules cfg = pre @ r # post"
  shows "clean E \<lparr>config = Some cfg\<rparr> df vi vo =
     Inl (case (if vi \<and> input_contract cfg \<noteq> None then validate E df (input_contract cfg)
                else Inr df) of
            Inl e \<Rightarrow> e
          | Inr df1 \<Rightarrow> (case apply_rules E df1 pre of
                         Inl e \<Rightarrow> e
                       | Inr df2 \<Rightarrow> UnknownOperation (rule_operation r)))"
proof -
  have "apply_rules E d (rules cfg) =
      Inl (case apply_rules E d pre of Inl e \<Rightarrow> e | Inr df2 \<Rightarrow> UnknownOperation (rule_operation r))"
    for d
    using assms by (simp add: apply_rules_append apply_rule_def split: sum.splits)
  then show ?thesis
    by (cases "if vi \<and> input_contract cfg \<noteq> None then validate E df (input_contract cfg) else Inr df")
       (simp_all add: clean_def ebind_def)
qed

lemma returned_sim:
  assumes "returned h res = (h', x)"
  shows "(\<forall>a < fresh h. cells h' a = cells h a) \<and> fresh h \<le> fresh h' \<and>
         (case x of Inl e \<Rightarrow> res = Inl e | Inr r \<Rightarrow> r < fresh h' \<and> res = Inr (cells h' r))"
  using assms by (cases res) (auto simp: returned_def alloc_def)

lemma apply_rules_on_sim:
  assumes "apply_rules_on E h df rs = (h', x)"
  shows "(\<forall>a < fresh h. cells h' a = cells h a) \<and> fresh h \<le> fresh h' \<and>
         (case x of
            Inl e \<Rightarrow> apply_rules E (cells h df) rs = Inl e
          | Inr r \<Rightarrow> (df < fresh h \<longrightarrow> r < fresh h') \<and> apply_rules E (cells h df) rs = Inr (cells h' r))"
  using assms
proof (induction rs arbitrary: h df)
  case Nil
  then show ?case by auto
next
  case (Cons rule rest)
  show ?case
  proof (cases "rule_enabled rule")
    case False
    with Cons.prems have "apply_rules_on E h df rest = (h', x)" by simp
    from Cons.IH [OF this] False show ?thesis by (auto split: sum.splits)
  next
    case True
    obtain h1 x1 where s: "returned h (apply_rule E (cells h df) rule) = (h1, x1)"
      by (cases "returned h (apply_rule E (cells h df) rule)")
    note r1 = returned_sim [OF s]
    show ?thesis
    proof (cases x1)
      case (Inl e)
      with Cons.prems True s r1 show ?thesis by auto
    next
      case (Inr df1)
      with Cons.prems True s have run: "apply_rules_on E h1 df1 rest = (h', x)" by simp
      note ih = Cons.IH [OF run]
      from r1 Inr have a: "apply_rule E (cells h df) rule = Inr (cells h1 df1)" "df1 < fresh h1"
        "fresh h \<le> fresh h1" "\<forall>a < fresh h. cells h1 a = cells h a" by simp_all
      from ih a have keep: "\<forall>a < fresh h. cells h' a = cells h a" "fresh h \<le> fresh h'" by auto
      from ih a True have res: "case x of
            Inl e \<Rightarrow> apply_rules E (cells h df) (rule # rest) = Inl e
          | Inr r \<Rightarrow> (df < fresh h \<longrightarrow> r < fresh h') \<and>
                     apply_rules E (cells h df) (rule # rest) = Inr (cells h' r)"
        by (auto split: sum.splits)
      from keep res show ?thesis by simp
    qed
  qed
qed

lemma clean_on_sim:
  assumes "clean_on E self h df vi vo = (h', x)"
  shows "(\<forall>a < fresh h. cells h' a = cells h a) \<and>
         (case x of
            Inl e \<Rightarrow> clean E self (cells h df) vi vo = Inl e
          | Inr r \<Rightarrow> clean E self (cells h df) vi vo = Inr (cells h' r))"
proof (cases "config self")
  case None
  with assms show ?thesis by (auto simp: clean_on_def clean_def)
next
  case (Some cfg)
  let ?v = "vi \<and> input_contract cfg \<noteq> None"
  obtain h1 x1 where s1: "(if ?v then returned h (validate E (cells h df) (input_contract cfg))
                            else (h, Inr df)) = (h1, x1)"
    by (cases "if ?v then returned h (validate E (cells h df) (input_contract cfg)) else (h, Inr df)")
  have p1: "(\<forall>a < fresh h. cells h1 a = cells h a) \<and> fresh h \<le> fresh h1 \<and>
      (case x1 of
         Inl e \<Rightarrow> (if ?v then validate E (cells h df) (input_contract cfg) else Inr (cells h df)) = Inl e
       | Inr r \<Rightarrow> (if ?v then validate E (cells h df) (input_contract cfg) else Inr (cells h df)) =
                   Inr (cells h1 r))"
  proof (cases ?v)
    case True
    with s1 returned_sim [of h "validate E (cells h df) (input_contract cfg)" h1 x1]
    show ?thesis by (auto split: sum.splits)
  next
    case False
    with s1 show ?thesis by auto
  qed
  show ?thesis
  proof (cases x1)
    case (Inl e)
    with assms Some s1 p1 show ?thesis by (auto simp: clean_on_def clean_def ebind_def Let_def)
  next
    case (Inr df1)
    obtain h2 x2 where s2: "apply_rules_on E h1 df1 (rules cfg) = (h2, x2)"
      by (cases "apply_rules_on E h1 df1 (rules cfg)")
    note p2 = apply_rules_on_sim [OF s2]
    from p1 Inr have v: "(if ?v then validate E (cells h df) (input_contract cfg) else Inr (cells h df)) =
        Inr (cells h1 df1)" by simp
    from p1 p2 have keep2: "\<forall>a < fresh h. cells h2 a = cells h a" "fresh h \<le> fresh h2" by auto
    show ?thesis
    proof (cases x2)
      case (Inl e)
      with assms Some s1 s2 Inr p2 v keep2 show ?thesis
        by (auto simp: clean_on_def clean_def ebind_def Let_def)
    next
      case (Inr df2)
      with p2 have run: "apply_rules E (cells h1 df1) (rules cfg) = Inr (cells h2 df2)" by simp
      let ?w = "vo \<and> output_contract cfg \<noteq> None"
      show ?thesis
      proof (cases ?w)
        case False
        with assms Some s1 s2 \<open>x1 = Inr df1\<close> Inr run v keep2 show ?thesis
          by (auto simp: clean_on_def clean_def ebind_def Let_def)
      next
        case True
        obtain h3 x3 where s3: "returned h2 (validate E (cells h2 df2) (output_contract cfg)) = (h3, x3)"
          by (cases "returned h2 (validate E (cells h2 df2) (output_contract cfg))")
        note p3 = returned_sim [OF s3]
        from assms Some s1 s2 \<open>x1 = Inr df1\<close> Inr True s3 have out: "h' = h3" "x = x3"
          by (auto simp: clean_on_def Let_def)
        from p3 keep2 have keep3: "\<forall>a < fresh h. cells h3 a = cells h a" by auto
        have "clean E self (cells h df) vi vo = validate E (cells h2 df2) (output_contract cfg)"
          using Some v run True by (simp add: clean_def ebind_def)
        with p3 keep3 out show ?thesis by (auto split: sum.splits)
      qed
    qed
  qed
qed

text \<open>
  C2, amended: applying a rule whose operation is not in the registry fails with the
  unknown-operation error on every dataset, before its columns are resolved. When an
  enabled rule of the configuration is such a rule, \<open>clean\<close> fails for every input
  dataset: with the error of input validation when that fails, else with the error of
  the first enabled rule before that rule that fails, else with the unknown-operation
  error. The call writes to no frame that exists when it starts, the input dataset among
  them: each is the same after the call.
\<close>

theorem C2_unknown_operation_fails:
  assumes "rule_enabled r" "OPERATIONS (rule_operation r) = None" "rules cfg = pre @ r # post"
    "inp < fresh h"
  shows "apply_rule E df' r = Inl (UnknownOperation (rule_operation r)) \<and>
         (\<exists>e. e = (case (if vi \<and> input_contract cfg \<noteq> None
                          then validate E (cells h inp) (input_contract cfg)
                          else Inr (cells h inp)) of
                     Inl e1 \<Rightarrow> e1
                   | Inr df1 \<Rightarrow> (case apply_rules E df1 pre of
                                  Inl e2 \<Rightarrow> e2
                                | Inr df2 \<Rightarrow> UnknownOperation (rule_operation r))) \<and>
              clean E \<lparr>config = Some cfg\<rparr> (cells h inp) vi vo = Inl e \<and>
              snd (clean_on E \<lparr>config = Some cfg\<rparr> h inp vi vo) = Inl e) \<and>
         cells (fst (clean_on E \<lparr>config = Some cfg\<rparr> h inp vi vo)) inp = cells h inp \<and>
         (\<forall>a < fresh h. cells (fst (clean_on E \<lparr>config = Some cfg\<rparr> h inp vi vo)) a = cells h a)"
proof -
  obtain h' x where run: "clean_on E \<lparr>config = Some cfg\<rparr> h inp vi vo = (h', x)"
    by (cases "clean_on E \<lparr>config = Some cfg\<rparr> h inp vi vo")
  note sim = clean_on_sim [OF run]
  note err = clean_unknown_error [OF assms(1-3), of E "cells h inp" vi vo]
  from sim err have x: "x = Inl (case (if vi \<and> input_contract cfg \<noteq> None
                          then validate E (cells h inp) (input_contract cfg)
                          else Inr (cells h inp)) of
                     Inl e1 \<Rightarrow> e1
                   | Inr df1 \<Rightarrow> (case apply_rules E df1 pre of
                                  Inl e2 \<Rightarrow> e2
                                | Inr df2 \<Rightarrow> UnknownOperation (rule_operation r)))"
    by (cases x) simp_all
  have a: "apply_rule E df' r = Inl (UnknownOperation (rule_operation r))"
    using assms(2) by (simp add: apply_rule_def)
  from sim have keep: "\<forall>a < fresh h. cells h' a = cells h a" by simp
  with assms(4) have inp: "cells h' inp = cells h inp" by simp
  from a err x keep inp run show ?thesis by simp
qed

theorem C2_unknown_operation_fails_witness:
  "rule_enabled (validate_rule 1) \<and> OPERATIONS (rule_operation (validate_rule 1)) = None \<and>
   rules (example_config [validate_rule 1, lowercase_rule True 0]) =
     [lowercase_rule True 0] @ validate_rule 1 # [] \<and>
   (0::nat) < fresh \<lparr>cells = (\<lambda>a. text_frame), fresh = 1\<rparr> \<and>
   snd (clean_on example_engine
          \<lparr>config = Some (example_config [validate_rule 1, lowercase_rule True 0])\<rparr>
          \<lparr>cells = (\<lambda>a. text_frame), fresh = 1\<rparr> 0 True True) =
     Inl (UnknownOperation VALIDATE) \<and>
   cells (fst (clean_on example_engine
          \<lparr>config = Some (example_config [validate_rule 1, lowercase_rule True 0])\<rparr>
          \<lparr>cells = (\<lambda>a. text_frame), fresh = 1\<rparr> 0 True True)) 0 = text_frame"
proof -
  let ?cfg = "example_config [validate_rule 1, lowercase_rule True 0]"
  let ?h = "\<lparr>cells = (\<lambda>a. text_frame), fresh = 1\<rparr>"
  have h1: "rule_enabled (validate_rule 1)" by (simp add: validate_rule_def)
  have h2: "OPERATIONS (rule_operation (validate_rule 1)) = None" by (simp add: validate_rule_def)
  have h3: "rules ?cfg = [lowercase_rule True 0] @ validate_rule 1 # []"
    by (simp add: ex_defs)
  have h4: "(0::nat) < fresh ?h" by simp
  have ev: "(case (if True \<and> input_contract ?cfg \<noteq> None
                   then validate example_engine (cells ?h 0) (input_contract ?cfg)
                   else Inr (cells ?h 0)) of
               Inl e1 \<Rightarrow> e1
             | Inr df1 \<Rightarrow> (case apply_rules example_engine df1 [lowercase_rule True 0] of
                            Inl e2 \<Rightarrow> e2
                          | Inr df2 \<Rightarrow> UnknownOperation (rule_operation (validate_rule 1)))) =
            UnknownOperation VALIDATE"
    by (simp add: ex_defs engine_defs op_defs)
  note t = C2_unknown_operation_fails [OF h1 h2 h3 h4, of example_engine text_frame True True]
  from t [THEN conjunct2, THEN conjunct1] ev
  have e: "snd (clean_on example_engine \<lparr>config = Some ?cfg\<rparr> ?h 0 True True) =
      Inl (UnknownOperation VALIDATE)"
    by auto
  from t [THEN conjunct2, THEN conjunct2, THEN conjunct1]
  have k: "cells (fst (clean_on example_engine \<lparr>config = Some ?cfg\<rparr> ?h 0 True True)) 0 = text_frame"
    by simp
  from h1 h2 h3 h4 e k show ?thesis by (intro conjI)
qed

section \<open>Operations on an empty column list\<close>

text \<open>
  C8: every operation of the registry other than \<open>drop_duplicates\<close> returns the dataset
  unchanged when the resolved column list is empty; \<open>drop_duplicates\<close> then removes
  duplicate rows with all columns of the dataset as the key.
\<close>

theorem C8_empty_columns_noop:
  "(\<forall>opn f. OPERATIONS opn = Some f \<and> opn \<noteq> DROP_DUPLICATES \<longrightarrow> f E df [] ps = Inr df) \<and>
   drop_duplicates E df [] ps = unique_rows E (df_columns df) (VBool False) df \<and>
   OPERATIONS DROP_DUPLICATES = Some drop_duplicates"
proof -
  have "f E df [] ps = Inr df" if "OPERATIONS opn = Some f" "opn \<noteq> DROP_DUPLICATES" for opn f
    using that
    by (cases opn)
       (auto simp: drop_nulls_def fill_nulls_def trim_whitespace_def lowercase_def uppercase_def
          replace_def cast_type_def filter_rows_def remove_outliers_def standardize_def)
  then show ?thesis by (auto simp: drop_duplicates_def)
qed

theorem C8_empty_columns_noop_witness:
  "OPERATIONS LOWERCASE = Some lowercase \<and> LOWERCASE \<noteq> DROP_DUPLICATES \<and>
   lowercase example_engine text_frame [] [] = Inr text_frame"
proof -
  have h: "OPERATIONS LOWERCASE = Some lowercase \<and> LOWERCASE \<noteq> DROP_DUPLICATES" by simp
  from C8_empty_columns_noop [of example_engine text_frame "[]", THEN conjunct1, THEN spec, THEN spec, THEN mp, OF h] h
  show ?thesis by simp
qed

section \<open>Column rewriting\<close>

lemma get_column_find: "get_column df n = Inr c \<longleftrightarrow> find (\<lambda>c. col_name c = n) df = Some c"
  by (simp add: get_column_def split: option.splits)

lemma get_column_name: "get_column df n = Inr c \<Longrightarrow> col_name c = n \<and> c \<in> set df"
  by (auto simp: get_column_find find_Some_iff)

lemma get_column_exists:
  "n \<in> set (df_columns df) \<Longrightarrow> \<exists>c. get_column df n = Inr c"
  by (cases "find (\<lambda>c. col_name c = n) df")
     (auto simp: get_column_def df_columns_def find_None_iff)

lemma get_column_distinct:
  "distinct (df_columns df) \<Longrightarrow> c \<in> set df \<Longrightarrow> get_column df (col_name c) = Inr c"
  by (induction df) (auto simp: get_column_def df_columns_def)

lemma get_columns_exists:
  "set ns \<subseteq> set (df_columns df) \<Longrightarrow> \<exists>cs. get_columns df ns = Inr cs"
proof (induction ns)
  case Nil
  then show ?case by simp
next
  case (Cons n ns)
  then obtain c cs where "get_column df n = Inr c" "get_columns df ns = Inr cs"
    using get_column_exists [of n df] by auto
  then show ?case by simp
qed

lemma first_duplicate_distinct: "first_duplicate ns = None \<longleftrightarrow> distinct ns"
  by (induction ns) auto

lemma eval_exprs_names:
  "eval_exprs df exprs = Inr new \<Longrightarrow> map col_name new = map fst exprs"
  by (induction exprs arbitrary: new) (auto split: sum.splits)

lemma with_columns_nil: "with_columns df [] = Inr df"
  by (simp add: with_columns_def ebind_def map_idI)

lemma with_columns_other:
  assumes "with_columns df exprs = Inr df'" "n \<notin> fst ` set exprs"
  shows "get_column df' n = get_column df n"
proof -
  from assms(1) obtain new where new: "eval_exprs df exprs = Inr new"
    and df': "df' = map (\<lambda>c. case find (\<lambda>c'. col_name c' = col_name c) new of
                              None \<Rightarrow> c | Some c' \<Rightarrow> c') df"
    by (auto simp: with_columns_def ebind_def split: sum.splits option.splits)
  let ?G = "\<lambda>c. case find (\<lambda>c'. col_name c' = col_name c) new of None \<Rightarrow> c | Some c' \<Rightarrow> c'"
  have names: "col_name ` set new = fst ` set exprs"
    using eval_exprs_names [OF new] by (metis set_map)
  have keep: "?G c = c" if "col_name c = n" for c
  proof -
    have "find (\<lambda>c'. col_name c' = n) new = None"
      using names assms(2) by (auto simp: find_None_iff)
    with that show ?thesis by simp
  qed
  have nm: "col_name (?G c) = col_name c" for c
    by (auto split: option.splits simp: find_Some_iff)
  have "find (\<lambda>c. col_name c = n) (map ?G d) = find (\<lambda>c. col_name c = n) d" for d
    by (induction d) (auto simp: keep nm)
  then show ?thesis by (simp add: get_column_def df')
qed

lemma cols_where_skip:
  assumes "get_column df col = Inr c" "\<not> P (col_dtype c)"
  shows "cols_where P df columns = cols_where P df (removeAll col columns)"
  using assms by (induction columns) (auto split: sum.splits)

lemma cols_where_subset:
  "cols_where P df columns = Inr cs \<Longrightarrow>
     set cs = {n \<in> set columns. \<exists>c. get_column df n = Inr c \<and> P (col_dtype c)}"
  by (induction columns arbitrary: cs) (auto split: sum.splits if_splits)

lemma cols_where_filter:
  "set columns \<subseteq> set (df_columns df) \<Longrightarrow>
     cols_where P df columns =
       Inr [n \<leftarrow> columns. \<exists>c. get_column df n = Inr c \<and> P (col_dtype c)]"
proof (induction columns)
  case Nil
  then show ?case by simp
next
  case (Cons n ns)
  then obtain c where "get_column df n = Inr c"
    using get_column_exists [of n df] by auto
  with Cons show ?case by simp
qed

lemma find_new_column:
  "find (\<lambda>c'. col_name c' = n) (map (\<lambda>col. (h col)\<lparr>col_name := col\<rparr>) cols) =
     (if n \<in> set cols then Some ((h n)\<lparr>col_name := n\<rparr>) else None)"
  by (induction cols) auto

lemma eval_exprs_same:
  assumes "\<forall>n \<in> set cols. \<exists>c. get_column df n = Inr c \<and> f c = Inr (g c)"
  shows "eval_exprs df (map (\<lambda>col. (col, f)) cols) =
     Inr (map (\<lambda>col. (case get_column df col of Inr c \<Rightarrow> g c | Inl e \<Rightarrow> c0)\<lparr>col_name := col\<rparr>) cols)"
  using assms by (induction cols) auto

lemma with_columns_same:
  assumes "distinct (df_columns df)" "distinct cols" "set cols \<subseteq> set (df_columns df)"
    "\<forall>c \<in> set df. col_name c \<in> set cols \<longrightarrow> f c = Inr (g c)"
  shows "with_columns df (map (\<lambda>col. (col, f)) cols) =
     Inr (map (\<lambda>c. if col_name c \<in> set cols then (g c)\<lparr>col_name := col_name c\<rparr> else c) df)"
proof -
  let ?h = "\<lambda>col. case get_column df col of Inr c \<Rightarrow> g c | Inl e \<Rightarrow> g (hd df)"
  have ex: "\<forall>n \<in> set cols. \<exists>c. get_column df n = Inr c \<and> f c = Inr (g c)"
  proof
    fix n assume n: "n \<in> set cols"
    with assms(3) obtain c where c: "get_column df n = Inr c"
      using get_column_exists [of n df] by auto
    with get_column_name [OF c] n assms(4) show "\<exists>c. get_column df n = Inr c \<and> f c = Inr (g c)"
      by auto
  qed
  have ev: "eval_exprs df (map (\<lambda>col. (col, f)) cols) =
      Inr (map (\<lambda>col. (?h col)\<lparr>col_name := col\<rparr>) cols)"
    using eval_exprs_same [OF ex] .
  obtain cs where gc: "get_columns df cols = Inr cs"
    using get_columns_exists [OF assms(3)] by blast
  have fd: "first_duplicate cols = None"
    using assms(2) by (simp add: first_duplicate_distinct)
  have "(case find (\<lambda>c'. col_name c' = col_name c) (map (\<lambda>col. (?h col)\<lparr>col_name := col\<rparr>) cols) of
           None \<Rightarrow> c | Some c' \<Rightarrow> c') =
        (if col_name c \<in> set cols then (g c)\<lparr>col_name := col_name c\<rparr> else c)"
    if "c \<in> set df" for c
    using get_column_distinct [OF assms(1) that] by (simp add: find_new_column)
  then show ?thesis
    by (simp add: with_columns_def ebind_def comp_def gc fd ev cong: map_cong)
qed

lemma cast_results:
  "map (\<lambda>r. case r of None \<Rightarrow> VNull | Some w \<Rightarrow> w)
       (map (\<lambda>v. if v = VNull then Some VNull else cast_value E d v) vs) =
   map (\<lambda>v. if v = VNull then VNull else
              (case cast_value E d v of None \<Rightarrow> VNull | Some w \<Rightarrow> w)) vs"
  by (induction vs) auto

lemma cast_series_native:
  "cast_series E (Native d) (VBool b) c =
     (if \<not> cast_supported E (col_dtype c) d \<or>
         (b \<and> (\<exists>v \<in> set (col_values c). v \<noteq> VNull \<and> cast_value E d v = None))
      then Inl InvalidOperation
      else Inr (c\<lparr>col_dtype := d, col_values := map (\<lambda>v. if v = VNull then VNull else
            (case cast_value E d v of None \<Rightarrow> VNull | Some w \<Rightarrow> w)) (col_values c)\<rparr>))"
proof (cases "cast_supported E (col_dtype c) d")
  case False
  then show ?thesis by (simp add: cast_series_def)
next
  case True
  have n: "None \<in> set (map (\<lambda>v. if v = VNull then Some VNull else cast_value E d v) (col_values c))
        \<longleftrightarrow> (\<exists>v \<in> set (col_values c). v \<noteq> VNull \<and> cast_value E d v = None)"
    by (force simp: image_iff split: if_splits)
  show ?thesis
    unfolding cast_series_def Let_def
    using True n by (simp only: cast_results) simp
qed

lemma eval_exprs_at:
  assumes "eval_exprs df (map (\<lambda>col. (col, f)) cols) = Inr new" "col \<in> set cols"
    "get_column df col = Inr c"
  shows "\<exists>c'. f c = Inr c' \<and> find (\<lambda>x. col_name x = col) new = Some (c'\<lparr>col_name := col\<rparr>)"
  using assms
proof (induction cols arbitrary: new)
  case Nil
  then show ?case by simp
next
  case (Cons n ns)
  from Cons.prems(1) obtain cn cn' rest where
    n: "get_column df n = Inr cn" "f cn = Inr cn'"
      "eval_exprs df (map (\<lambda>col. (col, f)) ns) = Inr rest" "new = cn'\<lparr>col_name := n\<rparr> # rest"
    by (auto split: sum.splits)
  show ?case
  proof (cases "n = col")
    case True
    with n Cons.prems(3) show ?thesis by simp
  next
    case False
    with Cons.prems(2) have "col \<in> set ns" by simp
    from Cons.IH [OF n(3) this Cons.prems(3)] False n(4) show ?thesis by simp
  qed
qed

lemma with_columns_at:
  assumes "with_columns df (map (\<lambda>col. (col, f)) cols) = Inr df'" "col \<in> set cols"
    "get_column df col = Inr c"
  shows "\<exists>c'. f c = Inr c' \<and> get_column df' col = Inr (c'\<lparr>col_name := col\<rparr>)"
proof -
  from assms(1) obtain new where new: "eval_exprs df (map (\<lambda>col. (col, f)) cols) = Inr new"
    and df': "df' = map (\<lambda>c. case find (\<lambda>c'. col_name c' = col_name c) new of
                              None \<Rightarrow> c | Some c' \<Rightarrow> c') df"
    by (auto simp: with_columns_def ebind_def split: sum.splits option.splits)
  let ?G = "\<lambda>c. case find (\<lambda>c'. col_name c' = col_name c) new of None \<Rightarrow> c | Some c' \<Rightarrow> c'"
  from eval_exprs_at [OF new assms(2,3)] obtain c' where
    c': "f c = Inr c'" "find (\<lambda>x. col_name x = col) new = Some (c'\<lparr>col_name := col\<rparr>)"
    by blast
  have nm: "col_name (?G x) = col_name x" for x
    by (auto split: option.splits simp: find_Some_iff)
  have "find (\<lambda>x. col_name x = col) (map ?G d) = map_option ?G (find (\<lambda>x. col_name x = col) d)"
    for d
    by (induction d) (auto simp: nm)
  moreover have "find (\<lambda>x. col_name x = col) df = Some c" "col_name c = col"
    using assms(3) get_column_name [OF assms(3)] by (simp_all add: get_column_find)
  ultimately have "find (\<lambda>x. col_name x = col) df' = Some (c'\<lparr>col_name := col\<rparr>)"
    using c'(2) by (simp add: df')
  with c'(1) show ?thesis by (simp add: get_column_find)
qed

lemma with_columns_fails_at:
  assumes "col \<in> set cols" "get_column df col = Inr c" "f c = Inl e"
  shows "\<exists>e'. with_columns df (map (\<lambda>col. (col, f)) cols) = Inl e'"
proof (cases "with_columns df (map (\<lambda>col. (col, f)) cols)")
  case (Inl e')
  then show ?thesis by blast
next
  case (Inr df')
  from with_columns_at [OF Inr assms(1,2)] assms(3) show ?thesis by simp
qed

lemma eval_exprs_fail:
  assumes "\<forall>n \<in> set cols. \<exists>c. get_column df n = Inr c \<and> (f c = Inl X \<or> (\<exists>c'. f c = Inr c'))"
    "\<exists>n \<in> set cols. \<exists>c. get_column df n = Inr c \<and> f c = Inl X"
  shows "eval_exprs df (map (\<lambda>col. (col, f)) cols) = Inl X"
  using assms
proof (induction cols)
  case Nil
  then show ?case by simp
next
  case (Cons n ns)
  then obtain c where c: "get_column df n = Inr c" "f c = Inl X \<or> (\<exists>c'. f c = Inr c')" by auto
  show ?case
  proof (cases "f c")
    case (Inl e)
    with c show ?thesis by simp
  next
    case (Inr c')
    with c Cons.prems have "\<exists>n \<in> set ns. \<exists>c. get_column df n = Inr c \<and> f c = Inl X" by auto
    with Cons have "eval_exprs df (map (\<lambda>col. (col, f)) ns) = Inl X" by simp
    with c Inr show ?thesis by simp
  qed
qed

lemma with_columns_fail:
  assumes "distinct cols" "set cols \<subseteq> set (df_columns df)"
    "\<forall>c \<in> set df. f c = Inl X \<or> (\<exists>c'. f c = Inr c')"
    "\<exists>c \<in> set df. col_name c \<in> set cols \<and> f c = Inl X" "distinct (df_columns df)"
  shows "with_columns df (map (\<lambda>col. (col, f)) cols) = Inl X"
proof -
  obtain cs where gc: "get_columns df cols = Inr cs"
    using get_columns_exists [OF assms(2)] by blast
  have fd: "first_duplicate cols = None"
    using assms(1) by (simp add: first_duplicate_distinct)
  have a: "\<forall>n \<in> set cols. \<exists>c. get_column df n = Inr c \<and> (f c = Inl X \<or> (\<exists>c'. f c = Inr c'))"
  proof
    fix n assume "n \<in> set cols"
    with assms(2) obtain c where c: "get_column df n = Inr c"
      using get_column_exists [of n df] by auto
    with get_column_name [OF c] assms(3)
    show "\<exists>c. get_column df n = Inr c \<and> (f c = Inl X \<or> (\<exists>c'. f c = Inr c'))" by auto
  qed
  from assms(4) obtain c where c: "c \<in> set df" "col_name c \<in> set cols" "f c = Inl X" by blast
  with get_column_distinct [OF assms(5) c(1)]
  have b: "\<exists>n \<in> set cols. \<exists>c. get_column df n = Inr c \<and> f c = Inl X" by blast
  show ?thesis
    by (simp add: with_columns_def ebind_def comp_def gc fd eval_exprs_fail [OF a b])
qed

lemma type_mapping_names:
  "(name, d) \<in> set type_mapping \<Longrightarrow> name \<noteq> [] \<and> map_of type_mapping name = Some d"
  by (auto simp: type_mapping_def)

text \<open>
  C1, as stated, fails: the names \<open>integer\<close>, \<open>string\<close> and \<open>boolean\<close> are not in the table
  of \<open>cast_type\<close>; they are handed to the engine as they are, not as native types.
\<close>

theorem C1_cast_type_names_counterexample:
  "type_mapping_get (VStr ''integer'') = Inr (Raw (VStr ''integer'')) \<and>
   type_mapping_get (VStr ''string'') = Inr (Raw (VStr ''string'')) \<and>
   type_mapping_get (VStr ''boolean'') = Inr (Raw (VStr ''boolean''))"
  by (simp add: type_mapping_get_def type_mapping_def)

text \<open>
  C1, amended: the type names of \<open>cast_type\<close> are \<open>int\<close>, \<open>float\<close>, \<open>str\<close>, \<open>bool\<close>,
  \<open>date\<close>, \<open>datetime\<close>. For a non-empty duplicate-free list of columns of the dataset
  and \<open>strict\<close> a bool (false when absent): when \<open>dtype\<close> is one of the six names, it is
  mapped to the native type of the name before the cast, and, unless the engine has no
  conversion to that type from the type of a listed column (then the operation fails),
  every listed column is cast to it and the other columns are untouched; a value whose
  cast fails is an error of the whole operation when \<open>strict\<close> and becomes null
  otherwise. When \<open>dtype\<close> is any other non-empty string, it is not mapped: the cast is
  given the string itself, and the operation fails with a type error when the engine
  does not read the string as a type.
\<close>

theorem C1_cast_type_native_types:
  assumes "columns \<noteq> []" "distinct columns" "set columns \<subseteq> set (df_columns df)"
    "distinct (df_columns df)" "map_of ps ''dtype'' = Some (VStr name)"
    "pget_default ps ''strict'' (VBool False) = VBool strict"
  shows "((name, d) \<in> set type_mapping \<longrightarrow>
            type_mapping_get (VStr name) = Inr (Native d) \<and>
            cast_type E df columns ps =
              (if \<exists>c \<in> set df. col_name c \<in> set columns \<and>
                    (\<not> cast_supported E (col_dtype c) d \<or>
                     (strict \<and> (\<exists>v \<in> set (col_values c). v \<noteq> VNull \<and> cast_value E d v = None)))
               then Inl InvalidOperation
               else Inr (map (\<lambda>c. if col_name c \<in> set columns
                                   then c\<lparr>col_dtype := d,
                                          col_values := map (\<lambda>v. if v = VNull then VNull else
                                            (case cast_value E d v of None \<Rightarrow> VNull | Some w \<Rightarrow> w))
                                            (col_values c)\<rparr>
                                   else c) df))) \<and>
         (name \<noteq> [] \<and> name \<notin> fst ` set type_mapping \<longrightarrow>
            type_mapping_get (VStr name) = Inr (Raw (VStr name)) \<and>
            cast_type E df columns ps =
              with_columns df
                (map (\<lambda>col. (col, cast_series E (Raw (VStr name)) (VBool strict))) columns) \<and>
            (parse_dtype E (VStr name) = None \<longrightarrow> cast_type E df columns ps = Inl TypeError))"
proof (intro conjI impI)
  assume m: "(name, d) \<in> set type_mapping"
  let ?g = "\<lambda>c. c\<lparr>col_dtype := d, col_values := map (\<lambda>v. if v = VNull then VNull else
              (case cast_value E d v of None \<Rightarrow> VNull | Some w \<Rightarrow> w)) (col_values c)\<rparr>"
  let ?f = "cast_series E (Native d) (VBool strict)"
  let ?bad = "\<exists>c \<in> set df. col_name c \<in> set columns \<and>
                (\<not> cast_supported E (col_dtype c) d \<or>
                 (strict \<and> (\<exists>v \<in> set (col_values c). v \<noteq> VNull \<and> cast_value E d v = None)))"
  note nm = type_mapping_names [OF m]
  show tm: "type_mapping_get (VStr name) = Inr (Native d)"
    using nm by (simp add: type_mapping_get_def)
  have ct: "cast_type E df columns ps = with_columns df (map (\<lambda>col. (col, ?f)) columns)"
    using assms(1,5,6) nm tm by (simp add: cast_type_def pget_def ebind_def)
  have res: "with_columns df (map (\<lambda>col. (col, ?f)) columns) =
      (if ?bad then Inl InvalidOperation
       else Inr (map (\<lambda>c. if col_name c \<in> set columns then ?g c else c) df))"
  proof (cases ?bad)
    case True
    have a: "\<forall>c \<in> set df. ?f c = Inl InvalidOperation \<or> (\<exists>c'. ?f c = Inr c')"
      by (simp add: cast_series_native)
    have b: "\<exists>c \<in> set df. col_name c \<in> set columns \<and> ?f c = Inl InvalidOperation"
      using True by (auto simp: cast_series_native)
    show ?thesis
      using with_columns_fail [OF assms(2) assms(3) a b assms(4)] True by simp
  next
    case False
    have ok: "\<forall>c \<in> set df. col_name c \<in> set columns \<longrightarrow> ?f c = Inr (?g c)"
    proof (intro ballI impI)
      fix c assume "c \<in> set df" "col_name c \<in> set columns"
      with False have "\<not> (\<not> cast_supported E (col_dtype c) d \<or>
          (strict \<and> (\<exists>v \<in> set (col_values c). v \<noteq> VNull \<and> cast_value E d v = None)))"
        by blast
      then show "?f c = Inr (?g c)" by (simp only: cast_series_native if_False)
    qed
    have "with_columns df (map (\<lambda>col. (col, ?f)) columns) =
        Inr (map (\<lambda>c. if col_name c \<in> set columns then (?g c)\<lparr>col_name := col_name c\<rparr> else c) df)"
      by (rule with_columns_same [OF assms(4) assms(2) assms(3) ok])
    with False show ?thesis by simp
  qed
  from ct res show "cast_type E df columns ps =
      (if ?bad then Inl InvalidOperation
       else Inr (map (\<lambda>c. if col_name c \<in> set columns then ?g c else c) df))"
    by simp
next
  assume n: "name \<noteq> [] \<and> name \<notin> fst ` set type_mapping"
  let ?f = "cast_series E (Raw (VStr name)) (VBool strict)"
  from n have none: "map_of type_mapping name = None"
    by (simp add: map_of_eq_None_iff)
  then show tm: "type_mapping_get (VStr name) = Inr (Raw (VStr name))"
    by (simp add: type_mapping_get_def)
  show ct: "cast_type E df columns ps = with_columns df (map (\<lambda>col. (col, ?f)) columns)"
    using assms(1,5,6) n tm by (simp add: cast_type_def pget_def ebind_def)
  show "cast_type E df columns ps = Inl TypeError" if p: "parse_dtype E (VStr name) = None"
  proof -
    have a: "\<forall>c \<in> set df. ?f c = Inl TypeError \<or> (\<exists>c'. ?f c = Inr c')"
      using p by (simp add: cast_series_def)
    from assms(1,3) obtain col where "col \<in> set columns" "col \<in> set (df_columns df)"
      by (cases columns) auto
    then obtain c where "c \<in> set df" "col_name c \<in> set columns"
      by (auto simp: df_columns_def)
    then have b: "\<exists>c \<in> set df. col_name c \<in> set columns \<and> ?f c = Inl TypeError"
      using p by (auto simp: cast_series_def)
    from with_columns_fail [OF assms(2) assms(3) a b assms(4)] ct show ?thesis by simp
  qed
qed

theorem C1_cast_type_native_types_witness:
  "cast_type example_engine numbers_frame [''numbers''] [(''dtype'', VStr ''int'')] =
     Inr [\<lparr>col_name = ''numbers'', col_dtype = Int64, col_values = [VInt 12, VNull, VNull]\<rparr>] \<and>
   cast_type example_engine numbers_frame [''numbers'']
       [(''dtype'', VStr ''int''), (''strict'', VBool True)] = Inl InvalidOperation \<and>
   cast_type example_engine numbers_frame [''numbers''] [(''dtype'', VStr ''bool'')] =
     Inl InvalidOperation \<and>
   cast_type example_engine numbers_frame [''numbers''] [(''dtype'', VStr ''integer'')] =
     Inl TypeError"
proof -
  have m: "(''int'', Int64) \<in> set type_mapping" "(''bool'', Boolean) \<in> set type_mapping"
    "''integer'' \<noteq> [] \<and> ''integer'' \<notin> fst ` set type_mapping"
    by (simp_all add: type_mapping_def)
  have d: "[''numbers''] \<noteq> []" "distinct [''numbers'']"
    "set [''numbers''] \<subseteq> set (df_columns numbers_frame)" "distinct (df_columns numbers_frame)"
    by (simp_all add: df_columns_def numbers_frame_def)
  have p: "parse_dtype example_engine (VStr ''integer'') = None"
    by (simp add: example_engine_def)
  have q1: "map_of [(''dtype'', VStr ''int'')] ''dtype'' = Some (VStr ''int'')"
    "pget_default [(''dtype'', VStr ''int'')] ''strict'' (VBool False) = VBool False"
    by (simp_all add: pget_default_def)
  have q2: "map_of [(''dtype'', VStr ''int''), (''strict'', VBool True)] ''dtype'' = Some (VStr ''int'')"
    "pget_default [(''dtype'', VStr ''int''), (''strict'', VBool True)] ''strict'' (VBool False) =
       VBool True"
    by (simp_all add: pget_default_def)
  have q3: "map_of [(''dtype'', VStr ''bool'')] ''dtype'' = Some (VStr ''bool'')"
    "pget_default [(''dtype'', VStr ''bool'')] ''strict'' (VBool False) = VBool False"
    by (simp_all add: pget_default_def)
  have q4: "map_of [(''dtype'', VStr ''integer'')] ''dtype'' = Some (VStr ''integer'')"
    "pget_default [(''dtype'', VStr ''integer'')] ''strict'' (VBool False) = VBool False"
    by (simp_all add: pget_default_def)
  have a: "cast_type example_engine numbers_frame [''numbers''] [(''dtype'', VStr ''int'')] =
     Inr [\<lparr>col_name = ''numbers'', col_dtype = Int64, col_values = [VInt 12, VNull, VNull]\<rparr>]"
    using C1_cast_type_native_types [OF d q1, where d = Int64 and E = example_engine,
      THEN conjunct1, THEN mp, OF m(1), THEN conjunct2]
    by (simp add: numbers_frame_def engine_defs)
  have b: "cast_type example_engine numbers_frame [''numbers'']
       [(''dtype'', VStr ''int''), (''strict'', VBool True)] = Inl InvalidOperation"
    using C1_cast_type_native_types [OF d q2, where d = Int64 and E = example_engine,
      THEN conjunct1, THEN mp, OF m(1), THEN conjunct2]
    by (simp add: numbers_frame_def engine_defs)
  have c: "cast_type example_engine numbers_frame [''numbers''] [(''dtype'', VStr ''bool'')] =
     Inl InvalidOperation"
    using C1_cast_type_native_types [OF d q3, where d = Boolean and E = example_engine,
      THEN conjunct1, THEN mp, OF m(2), THEN conjunct2]
    by (simp add: numbers_frame_def engine_defs)
  have e: "cast_type example_engine numbers_frame [''numbers''] [(''dtype'', VStr ''integer'')] =
     Inl TypeError"
    by (rule C1_cast_type_native_types [OF d q4, where E = example_engine,
      THEN conjunct2, THEN mp, OF m(3), THEN conjunct2, THEN conjunct2, THEN mp, OF p])
  from a b c e show ?thesis by (intro conjI)
qed

lemma guarded_skip:
  assumes "get_column df col = Inr c" "\<not> P (col_dtype c)"
  shows "(if columns = [] then Inr df
          else ebind (cols_where P df columns) (\<lambda>cs. with_columns df (map F cs))) =
         (if removeAll col columns = [] then Inr df
          else ebind (cols_where P df (removeAll col columns)) (\<lambda>cs. with_columns df (map F cs)))"
proof (cases "removeAll col columns = []")
  case True
  then have "cols_where P df columns = Inr []"
    using cols_where_skip [where P = P, OF assms, of columns] by simp
  with True show ?thesis by (simp add: ebind_def with_columns_nil)
next
  case False
  then have "columns \<noteq> []" by auto
  with False show ?thesis
    using cols_where_skip [where P = P, OF assms, of columns] by simp
qed

lemma guarded_unchanged:
  assumes "get_column df col = Inr c" "\<not> P (col_dtype c)"
    "(if columns = [] then Inr df
      else ebind (cols_where P df columns) (\<lambda>cs. with_columns df (map (\<lambda>n. (n, f)) cs))) = Inr df'"
  shows "get_column df' col = Inr c"
proof (cases "columns = []")
  case True
  with assms show ?thesis by simp
next
  case False
  with assms(3) obtain cs where cs: "cols_where P df columns = Inr cs"
    and w: "with_columns df (map (\<lambda>n. (n, f)) cs) = Inr df'"
    by (auto simp: ebind_def split: sum.splits)
  have "col \<notin> set cs"
    using cols_where_subset [OF cs] assms(1,2) by auto
  then have "col \<notin> fst ` set (map (\<lambda>n. (n, f)) cs)" by (auto simp: image_iff)
  from with_columns_other [OF w this] assms(1) show ?thesis by simp
qed

lemma guarded_str_success:
  assumes "distinct (df_columns df)" "distinct columns" "set columns \<subseteq> set (df_columns df)"
  shows "\<exists>df'. (if columns = [] then Inr df
      else ebind (cols_where (\<lambda>d. d = Utf8) df columns)
             (\<lambda>cs. with_columns df (map (\<lambda>n. (n, map_str h)) cs))) = Inr df'"
proof -
  let ?cs = "[n \<leftarrow> columns. \<exists>c. get_column df n = Inr c \<and> col_dtype c = Utf8]"
  let ?g = "\<lambda>c. c\<lparr>col_values := map (\<lambda>v. case v of VStr s \<Rightarrow> VStr (h s) | _ \<Rightarrow> v) (col_values c)\<rparr>"
  have cw: "cols_where (\<lambda>d. d = Utf8) df columns = Inr ?cs"
    by (rule cols_where_filter [OF assms(3)])
  have ok: "\<forall>c \<in> set df. col_name c \<in> set ?cs \<longrightarrow> map_str h c = Inr (?g c)"
    using get_column_distinct [OF assms(1)] by (auto simp: map_str_def)
  have "with_columns df (map (\<lambda>n. (n, map_str h)) ?cs) =
      Inr (map (\<lambda>c. if col_name c \<in> set ?cs then (?g c)\<lparr>col_name := col_name c\<rparr> else c) df)"
    using assms(2,3) by (intro with_columns_same [OF assms(1) _ _ ok]) auto
  with cw show ?thesis by (simp add: ebind_def)
qed

lemma get_column_filter_frame:
  "get_column df n = Inr c \<Longrightarrow>
     \<exists>c'. get_column (filter_frame keep df) n = Inr c' \<and> col_dtype c' = col_dtype c"
  by (induction df) (auto simp: get_column_def filter_frame_def split: if_splits)

lemma remove_outliers_loop_skip:
  assumes "get_column df col = Inr c" "\<not> numeric_dtype (col_dtype c)"
  shows "remove_outliers_loop E m t df columns = remove_outliers_loop E m t df (removeAll col columns)"
  using assms
proof (induction columns arbitrary: df c m)
  case Nil
  then show ?case by simp
next
  case (Cons n ns)
  have step: "remove_outliers_loop E m' t (filter_frame keep df) ns =
      remove_outliers_loop E m' t (filter_frame keep df) (removeAll col ns)" for keep m'
  proof -
    from get_column_filter_frame [OF Cons.prems(1), of keep]
    obtain c' where "get_column (filter_frame keep df) col = Inr c'" "col_dtype c' = col_dtype c"
      by blast
    with Cons.prems(2) show ?thesis
      using Cons.IH [of "filter_frame keep df" c' m'] by simp
  qed
  have same: "remove_outliers_loop E m' t df ns = remove_outliers_loop E m' t df (removeAll col ns)"
    for m'
    using Cons.prems Cons.IH [of df c m'] by simp
  show ?case
  proof (cases "n = col")
    case True
    with Cons.prems same show ?thesis by simp
  next
    case False
    then show ?thesis
      by (simp add: step same cong: sum.case_cong option.case_cong if_cong)
  qed
qed

text \<open>
  C4, as stated, fails: \<open>replace\<close> with a \<open>value\<close> parameter and \<open>fill_nulls\<close> do not look
  at the type of a column. An exact replacement of 1 by 2 rewrites the integer column
  \<open>n\<close>, and filling with the mean rewrites the Boolean column \<open>flag\<close>.
\<close>

theorem C4_no_type_check_counterexample:
  "replace example_engine mixed_frame [''n''] [(''value'', VInt 1), (''replacement'', VInt 2)] =
     Inr [\<lparr>col_name = ''a'', col_dtype = Utf8, col_values = [VStr ''Ab'', VNull]\<rparr>,
          \<lparr>col_name = ''n'', col_dtype = Int64, col_values = [VInt 2, VInt 3]\<rparr>,
          \<lparr>col_name = ''flag'', col_dtype = Boolean, col_values = [VBool True, VNull]\<rparr>] \<and>
   fill_nulls example_engine mixed_frame [''flag''] [(''strategy'', VStr ''mean'')] =
     Inr [\<lparr>col_name = ''a'', col_dtype = Utf8, col_values = [VStr ''Ab'', VNull]\<rparr>,
          \<lparr>col_name = ''n'', col_dtype = Int64, col_values = [VInt 1, VInt 3]\<rparr>,
          \<lparr>col_name = ''flag'', col_dtype = Float64, col_values = [VFloat 1 0, VFloat 1 0]\<rparr>]"
  by (simp add: mixed_frame_def engine_defs op_defs)

lemma no_type_check:
  assumes "get_column df col = Inr c" "col \<in> set columns"
    "r = with_columns df (map (\<lambda>n. (n, f)) columns)"
  shows "(\<forall>df'. r = Inr df' \<longrightarrow>
            (\<exists>c'. f c = Inr c' \<and> get_column df' col = Inr (c'\<lparr>col_name := col\<rparr>))) \<and>
         (\<forall>e. f c = Inl e \<longrightarrow> (\<exists>e'. r = Inl e'))"
  using with_columns_at [OF _ assms(2) assms(1), of f] with_columns_fails_at [OF assms(2) assms(1), of f]
  unfolding assms(3) by blast

text \<open>
  C4, amended: \<open>trim_whitespace\<close>, \<open>lowercase\<close> and \<open>uppercase\<close> succeed on every duplicate-free
  list of columns of the dataset, whatever the types of the columns. These three and
  \<open>replace\<close> in pattern mode (a \<open>pattern\<close> and no \<open>value\<close>) skip a resolved column that is
  not a string column; \<open>standardize\<close> and \<open>remove_outliers\<close> skip one whose type is not
  among the signed integer and float types. Skipping means: the operation gives the
  result it gives without that column in the list, so no error comes from it; when the
  result is a dataset, the column is in it unchanged (for \<open>remove_outliers\<close>, which drops
  rows, only the first holds). \<open>fill_nulls\<close> with the strategy \<open>mean\<close> or \<open>median\<close> and
  \<open>replace\<close> with a \<open>value\<close> that is not a list do not skip: a resolved column of any type
  is given to the engine, the operation fails when the engine fails on it, and in a
  resulting dataset the column is what the engine made of it.
\<close>

theorem C4_permissive_skip:
  "(distinct (df_columns df) \<and> distinct columns \<and> set columns \<subseteq> set (df_columns df) \<longrightarrow>
      (\<forall>opn \<in> set [trim_whitespace, lowercase, uppercase]. \<exists>df'. opn E df columns ps = Inr df')) \<and>
   (get_column df col = Inr c \<and> col_dtype c \<noteq> Utf8 \<longrightarrow>
      (\<forall>opn \<in> set [trim_whitespace, lowercase, uppercase].
         opn E df columns ps = opn E df (removeAll col columns) ps \<and>
         (\<forall>df'. opn E df columns ps = Inr df' \<longrightarrow> get_column df' col = Inr c))) \<and>
   (get_column df col = Inr c \<and> col_dtype c \<noteq> Utf8 \<and>
    pget ps ''pattern'' \<noteq> VNull \<and> pget ps ''value'' = VNull \<longrightarrow>
      replace E df columns ps = replace E df (removeAll col columns) ps \<and>
      (\<forall>df'. replace E df columns ps = Inr df' \<longrightarrow> get_column df' col = Inr c)) \<and>
   (get_column df col = Inr c \<and> \<not> numeric_dtype (col_dtype c) \<longrightarrow>
      standardize E df columns ps = standardize E df (removeAll col columns) ps \<and>
      (\<forall>df'. standardize E df columns ps = Inr df' \<longrightarrow> get_column df' col = Inr c) \<and>
      remove_outliers E df columns ps = remove_outliers E df (removeAll col columns) ps) \<and>
   (get_column df col = Inr c \<and> col \<in> set columns \<longrightarrow>
      (pget_default ps ''strategy'' (VStr ''value'') = VStr ''mean'' \<longrightarrow>
         (\<forall>df'. fill_nulls E df columns ps = Inr df' \<longrightarrow>
            (\<exists>c'. fill_null_with E (agg_mean E c) c = Inr c' \<and>
                  get_column df' col = Inr (c'\<lparr>col_name := col\<rparr>))) \<and>
         (\<forall>e. fill_null_with E (agg_mean E c) c = Inl e \<longrightarrow>
            (\<exists>e'. fill_nulls E df columns ps = Inl e'))) \<and>
      (pget_default ps ''strategy'' (VStr ''value'') = VStr ''median'' \<longrightarrow>
         (\<forall>df'. fill_nulls E df columns ps = Inr df' \<longrightarrow>
            (\<exists>c'. fill_null_with E (agg_median E c) c = Inr c' \<and>
                  get_column df' col = Inr (c'\<lparr>col_name := col\<rparr>))) \<and>
         (\<forall>e. fill_null_with E (agg_median E c) c = Inl e \<longrightarrow>
            (\<exists>e'. fill_nulls E df columns ps = Inl e'))) \<and>
      (pget ps ''value'' \<noteq> VNull \<and> (\<forall>l. pget ps ''value'' \<noteq> VList l) \<longrightarrow>
         (\<forall>df'. replace E df columns ps = Inr df' \<longrightarrow>
            (\<exists>c'. replace_values E (pget ps ''value'') (pget_default ps ''replacement'' (VStr [])) c =
                    Inr c' \<and>
                  get_column df' col = Inr (c'\<lparr>col_name := col\<rparr>))) \<and>
         (\<forall>e. replace_values E (pget ps ''value'') (pget_default ps ''replacement'' (VStr [])) c =
                Inl e \<longrightarrow>
            (\<exists>e'. replace E df columns ps = Inl e'))))"
proof (intro conjI)
  show "distinct (df_columns df) \<and> distinct columns \<and> set columns \<subseteq> set (df_columns df) \<longrightarrow>
      (\<forall>opn \<in> set [trim_whitespace, lowercase, uppercase]. \<exists>df'. opn E df columns ps = Inr df')"
    using guarded_str_success [of df columns]
    unfolding trim_whitespace_def lowercase_def uppercase_def by simp
next
  show "get_column df col = Inr c \<and> col_dtype c \<noteq> Utf8 \<longrightarrow>
      (\<forall>opn \<in> set [trim_whitespace, lowercase, uppercase].
         opn E df columns ps = opn E df (removeAll col columns) ps \<and>
         (\<forall>df'. opn E df columns ps = Inr df' \<longrightarrow> get_column df' col = Inr c))"
  proof
    assume a: "get_column df col = Inr c \<and> col_dtype c \<noteq> Utf8"
    then have g: "get_column df col = Inr c" and P: "\<not> (\<lambda>d. d = Utf8) (col_dtype c)" by simp_all
    show "\<forall>opn \<in> set [trim_whitespace, lowercase, uppercase].
           opn E df columns ps = opn E df (removeAll col columns) ps \<and>
           (\<forall>df'. opn E df columns ps = Inr df' \<longrightarrow> get_column df' col = Inr c)"
      using guarded_skip [where P = "\<lambda>d. d = Utf8", OF g P]
        guarded_unchanged [where P = "\<lambda>d. d = Utf8", OF g P]
      unfolding trim_whitespace_def lowercase_def uppercase_def by simp
  qed
next
  show "get_column df col = Inr c \<and> col_dtype c \<noteq> Utf8 \<and>
        pget ps ''pattern'' \<noteq> VNull \<and> pget ps ''value'' = VNull \<longrightarrow>
      replace E df columns ps = replace E df (removeAll col columns) ps \<and>
      (\<forall>df'. replace E df columns ps = Inr df' \<longrightarrow> get_column df' col = Inr c)"
  proof (intro impI conjI)
    assume a: "get_column df col = Inr c \<and> col_dtype c \<noteq> Utf8 \<and>
               pget ps ''pattern'' \<noteq> VNull \<and> pget ps ''value'' = VNull"
    then have g: "get_column df col = Inr c" and P: "\<not> (\<lambda>d. d = Utf8) (col_dtype c)" by simp_all
    have r: "replace E df cols ps =
        (if cols = [] then Inr df
         else ebind (cols_where (\<lambda>d. d = Utf8) df cols)
                (\<lambda>cs. with_columns df (map (\<lambda>n. (n, str_replace_all E (pget ps ''pattern'')
                         (pget_default ps ''replacement'' (VStr [])))) cs)))" for cols
      using a by (simp add: replace_def Let_def)
    show "replace E df columns ps = replace E df (removeAll col columns) ps"
      unfolding r by (rule guarded_skip [where P = "\<lambda>d. d = Utf8", OF g P])
    show "\<forall>df'. replace E df columns ps = Inr df' \<longrightarrow> get_column df' col = Inr c"
      unfolding r using guarded_unchanged [where P = "\<lambda>d. d = Utf8", OF g P] by blast
  qed
next
  show "get_column df col = Inr c \<and> \<not> numeric_dtype (col_dtype c) \<longrightarrow>
      standardize E df columns ps = standardize E df (removeAll col columns) ps \<and>
      (\<forall>df'. standardize E df columns ps = Inr df' \<longrightarrow> get_column df' col = Inr c) \<and>
      remove_outliers E df columns ps = remove_outliers E df (removeAll col columns) ps"
  proof (intro impI conjI)
    assume a: "get_column df col = Inr c \<and> \<not> numeric_dtype (col_dtype c)"
    then have g: "get_column df col = Inr c" and n: "\<not> numeric_dtype (col_dtype c)" by simp_all
    show "standardize E df columns ps = standardize E df (removeAll col columns) ps"
      using guarded_skip [where P = numeric_dtype, OF g n] by (simp add: standardize_def)
    show "\<forall>df'. standardize E df columns ps = Inr df' \<longrightarrow> get_column df' col = Inr c"
      using guarded_unchanged [where P = numeric_dtype, OF g n] by (simp add: standardize_def)
    show "remove_outliers E df columns ps = remove_outliers E df (removeAll col columns) ps"
    proof (cases "columns = []")
      case True
      then show ?thesis by simp
    next
      case False
      have "remove_outliers_loop E m t df columns =
          remove_outliers_loop E m t df (removeAll col columns)" for m t
        by (rule remove_outliers_loop_skip [OF g n])
      with False show ?thesis
        by (cases "removeAll col columns = []") (simp_all add: remove_outliers_def)
    qed
  qed
next
  show "get_column df col = Inr c \<and> col \<in> set columns \<longrightarrow>
      (pget_default ps ''strategy'' (VStr ''value'') = VStr ''mean'' \<longrightarrow>
         (\<forall>df'. fill_nulls E df columns ps = Inr df' \<longrightarrow>
            (\<exists>c'. fill_null_with E (agg_mean E c) c = Inr c' \<and>
                  get_column df' col = Inr (c'\<lparr>col_name := col\<rparr>))) \<and>
         (\<forall>e. fill_null_with E (agg_mean E c) c = Inl e \<longrightarrow>
            (\<exists>e'. fill_nulls E df columns ps = Inl e'))) \<and>
      (pget_default ps ''strategy'' (VStr ''value'') = VStr ''median'' \<longrightarrow>
         (\<forall>df'. fill_nulls E df columns ps = Inr df' \<longrightarrow>
            (\<exists>c'. fill_null_with E (agg_median E c) c = Inr c' \<and>
                  get_column df' col = Inr (c'\<lparr>col_name := col\<rparr>))) \<and>
         (\<forall>e. fill_null_with E (agg_median E c) c = Inl e \<longrightarrow>
            (\<exists>e'. fill_nulls E df columns ps = Inl e'))) \<and>
      (pget ps ''value'' \<noteq> VNull \<and> (\<forall>l. pget ps ''value'' \<noteq> VList l) \<longrightarrow>
         (\<forall>df'. replace E df columns ps = Inr df' \<longrightarrow>
            (\<exists>c'. replace_values E (pget ps ''value'') (pget_default ps ''replacement'' (VStr [])) c =
                    Inr c' \<and>
                  get_column df' col = Inr (c'\<lparr>col_name := col\<rparr>))) \<and>
         (\<forall>e. replace_values E (pget ps ''value'') (pget_default ps ''replacement'' (VStr [])) c =
                Inl e \<longrightarrow>
            (\<exists>e'. replace E df columns ps = Inl e')))"
  proof
    assume a: "get_column df col = Inr c \<and> col \<in> set columns"
    then have g: "get_column df col = Inr c" and mem: "col \<in> set columns" and ne: "columns \<noteq> []"
      by auto
    have mean: "(\<forall>df'. fill_nulls E df columns ps = Inr df' \<longrightarrow>
            (\<exists>c'. fill_null_with E (agg_mean E c) c = Inr c' \<and>
                  get_column df' col = Inr (c'\<lparr>col_name := col\<rparr>))) \<and>
        (\<forall>e. fill_null_with E (agg_mean E c) c = Inl e \<longrightarrow>
            (\<exists>e'. fill_nulls E df columns ps = Inl e'))"
      if s: "pget_default ps ''strategy'' (VStr ''value'') = VStr ''mean''"
    proof -
      have "fill_nulls E df columns ps =
          with_columns df (map (\<lambda>n. (n, \<lambda>c. fill_null_with E (agg_mean E c) c)) columns)"
        using ne s by (simp add: fill_nulls_def Let_def)
      from no_type_check [OF g mem this] show ?thesis .
    qed
    have median: "(\<forall>df'. fill_nulls E df columns ps = Inr df' \<longrightarrow>
            (\<exists>c'. fill_null_with E (agg_median E c) c = Inr c' \<and>
                  get_column df' col = Inr (c'\<lparr>col_name := col\<rparr>))) \<and>
        (\<forall>e. fill_null_with E (agg_median E c) c = Inl e \<longrightarrow>
            (\<exists>e'. fill_nulls E df columns ps = Inl e'))"
      if s: "pget_default ps ''strategy'' (VStr ''value'') = VStr ''median''"
    proof -
      have "fill_nulls E df columns ps =
          with_columns df (map (\<lambda>n. (n, \<lambda>c. fill_null_with E (agg_median E c) c)) columns)"
        using ne s by (simp add: fill_nulls_def Let_def)
      from no_type_check [OF g mem this] show ?thesis .
    qed
    have exact: "(\<forall>df'. replace E df columns ps = Inr df' \<longrightarrow>
            (\<exists>c'. replace_values E (pget ps ''value'') (pget_default ps ''replacement'' (VStr [])) c =
                    Inr c' \<and>
                  get_column df' col = Inr (c'\<lparr>col_name := col\<rparr>))) \<and>
         (\<forall>e. replace_values E (pget ps ''value'') (pget_default ps ''replacement'' (VStr [])) c =
                Inl e \<longrightarrow>
            (\<exists>e'. replace E df columns ps = Inl e'))"
      if v: "pget ps ''value'' \<noteq> VNull \<and> (\<forall>l. pget ps ''value'' \<noteq> VList l)"
    proof -
      have "replace E df columns ps =
          with_columns df (map (\<lambda>n. (n, replace_values E (pget ps ''value'')
                                          (pget_default ps ''replacement'' (VStr [])))) columns)"
        using ne v by (cases "pget ps ''value''") (simp_all add: replace_def Let_def)
      from no_type_check [OF g mem this] show ?thesis .
    qed
    from mean median exact
    show "(pget_default ps ''strategy'' (VStr ''value'') = VStr ''mean'' \<longrightarrow>
         (\<forall>df'. fill_nulls E df columns ps = Inr df' \<longrightarrow>
            (\<exists>c'. fill_null_with E (agg_mean E c) c = Inr c' \<and>
                  get_column df' col = Inr (c'\<lparr>col_name := col\<rparr>))) \<and>
         (\<forall>e. fill_null_with E (agg_mean E c) c = Inl e \<longrightarrow>
            (\<exists>e'. fill_nulls E df columns ps = Inl e'))) \<and>
      (pget_default ps ''strategy'' (VStr ''value'') = VStr ''median'' \<longrightarrow>
         (\<forall>df'. fill_nulls E df columns ps = Inr df' \<longrightarrow>
            (\<exists>c'. fill_null_with E (agg_median E c) c = Inr c' \<and>
                  get_column df' col = Inr (c'\<lparr>col_name := col\<rparr>))) \<and>
         (\<forall>e. fill_null_with E (agg_median E c) c = Inl e \<longrightarrow>
            (\<exists>e'. fill_nulls E df columns ps = Inl e'))) \<and>
      (pget ps ''value'' \<noteq> VNull \<and> (\<forall>l. pget ps ''value'' \<noteq> VList l) \<longrightarrow>
         (\<forall>df'. replace E df columns ps = Inr df' \<longrightarrow>
            (\<exists>c'. replace_values E (pget ps ''value'') (pget_default ps ''replacement'' (VStr [])) c =
                    Inr c' \<and>
                  get_column df' col = Inr (c'\<lparr>col_name := col\<rparr>))) \<and>
         (\<forall>e. replace_values E (pget ps ''value'') (pget_default ps ''replacement'' (VStr [])) c =
                Inl e \<longrightarrow>
            (\<exists>e'. replace E df columns ps = Inl e')))"
      by (intro conjI impI) blast+
  qed
qed

theorem C4_permissive_skip_witness:
  "(\<exists>df'. lowercase example_engine mixed_frame [''a'', ''flag''] [] = Inr df') \<and>
   lowercase example_engine mixed_frame [''a'', ''flag''] [] =
     lowercase example_engine mixed_frame (removeAll ''flag'' [''a'', ''flag'']) [] \<and>
   get_column
     [\<lparr>col_name = ''a'', col_dtype = Utf8, col_values = [VStr ''ab'', VNull]\<rparr>,
      \<lparr>col_name = ''n'', col_dtype = Int64, col_values = [VInt 1, VInt 3]\<rparr>,
      \<lparr>col_name = ''flag'', col_dtype = Boolean, col_values = [VBool True, VNull]\<rparr>] ''flag'' =
     Inr \<lparr>col_name = ''flag'', col_dtype = Boolean, col_values = [VBool True, VNull]\<rparr> \<and>
   replace example_engine mixed_frame [''a'', ''flag'']
       [(''pattern'', VStr ''b''), (''replacement'', VStr ''X'')] =
     replace example_engine mixed_frame (removeAll ''flag'' [''a'', ''flag''])
       [(''pattern'', VStr ''b''), (''replacement'', VStr ''X'')] \<and>
   replace example_engine mixed_frame [''a'', ''flag'']
       [(''pattern'', VStr ''b''), (''replacement'', VStr ''X'')] =
     Inr [\<lparr>col_name = ''a'', col_dtype = Utf8, col_values = [VStr ''AX'', VNull]\<rparr>,
          \<lparr>col_name = ''n'', col_dtype = Int64, col_values = [VInt 1, VInt 3]\<rparr>,
          \<lparr>col_name = ''flag'', col_dtype = Boolean, col_values = [VBool True, VNull]\<rparr>] \<and>
   standardize example_engine mixed_frame [''flag''] [] =
     standardize example_engine mixed_frame (removeAll ''flag'' [''flag'']) [] \<and>
   remove_outliers example_engine mixed_frame [''flag''] [] =
     remove_outliers example_engine mixed_frame (removeAll ''flag'' [''flag'']) [] \<and>
   (\<exists>c'. fill_null_with example_engine
            (agg_mean example_engine
               \<lparr>col_name = ''flag'', col_dtype = Boolean, col_values = [VBool True, VNull]\<rparr>)
            \<lparr>col_name = ''flag'', col_dtype = Boolean, col_values = [VBool True, VNull]\<rparr> = Inr c' \<and>
         get_column
           [\<lparr>col_name = ''a'', col_dtype = Utf8, col_values = [VStr ''Ab'', VNull]\<rparr>,
            \<lparr>col_name = ''n'', col_dtype = Int64, col_values = [VInt 1, VInt 3]\<rparr>,
            \<lparr>col_name = ''flag'', col_dtype = Float64, col_values = [VFloat 1 0, VFloat 1 0]\<rparr>]
           ''flag'' = Inr (c'\<lparr>col_name := ''flag''\<rparr>)) \<and>
   (\<exists>c'. fill_null_with example_engine
            (agg_median example_engine
               \<lparr>col_name = ''flag'', col_dtype = Boolean, col_values = [VBool True, VNull]\<rparr>)
            \<lparr>col_name = ''flag'', col_dtype = Boolean, col_values = [VBool True, VNull]\<rparr> = Inr c' \<and>
         get_column
           [\<lparr>col_name = ''a'', col_dtype = Utf8, col_values = [VStr ''Ab'', VNull]\<rparr>,
            \<lparr>col_name = ''n'', col_dtype = Int64, col_values = [VInt 1, VInt 3]\<rparr>,
            \<lparr>col_name = ''flag'', col_dtype = Float64, col_values = [VFloat 1 0, VFloat 1 0]\<rparr>]
           ''flag'' = Inr (c'\<lparr>col_name := ''flag''\<rparr>)) \<and>
   (\<exists>c'. replace_values example_engine
            (pget [(''value'', VInt 1), (''replacement'', VInt 2)] ''value'')
            (pget_default [(''value'', VInt 1), (''replacement'', VInt 2)] ''replacement'' (VStr []))
            \<lparr>col_name = ''n'', col_dtype = Int64, col_values = [VInt 1, VInt 3]\<rparr> = Inr c' \<and>
         get_column
           [\<lparr>col_name = ''a'', col_dtype = Utf8, col_values = [VStr ''Ab'', VNull]\<rparr>,
            \<lparr>col_name = ''n'', col_dtype = Int64, col_values = [VInt 2, VInt 3]\<rparr>,
            \<lparr>col_name = ''flag'', col_dtype = Boolean, col_values = [VBool True, VNull]\<rparr>]
           ''n'' = Inr (c'\<lparr>col_name := ''n''\<rparr>))"
proof -
  let ?flag = "\<lparr>col_name = ''flag'', col_dtype = Boolean, col_values = [VBool True, VNull]\<rparr>"
  let ?n = "\<lparr>col_name = ''n'', col_dtype = Int64, col_values = [VInt 1, VInt 3]\<rparr>"
  let ?low = "[\<lparr>col_name = ''a'', col_dtype = Utf8, col_values = [VStr ''ab'', VNull]\<rparr>,
      \<lparr>col_name = ''n'', col_dtype = Int64, col_values = [VInt 1, VInt 3]\<rparr>,
      \<lparr>col_name = ''flag'', col_dtype = Boolean, col_values = [VBool True, VNull]\<rparr>]"
  let ?rep = "[\<lparr>col_name = ''a'', col_dtype = Utf8, col_values = [VStr ''AX'', VNull]\<rparr>,
      \<lparr>col_name = ''n'', col_dtype = Int64, col_values = [VInt 1, VInt 3]\<rparr>,
      \<lparr>col_name = ''flag'', col_dtype = Boolean, col_values = [VBool True, VNull]\<rparr>]"
  let ?filled = "[\<lparr>col_name = ''a'', col_dtype = Utf8, col_values = [VStr ''Ab'', VNull]\<rparr>,
      \<lparr>col_name = ''n'', col_dtype = Int64, col_values = [VInt 1, VInt 3]\<rparr>,
      \<lparr>col_name = ''flag'', col_dtype = Float64, col_values = [VFloat 1 0, VFloat 1 0]\<rparr>]"
  let ?exact = "[\<lparr>col_name = ''a'', col_dtype = Utf8, col_values = [VStr ''Ab'', VNull]\<rparr>,
      \<lparr>col_name = ''n'', col_dtype = Int64, col_values = [VInt 2, VInt 3]\<rparr>,
      \<lparr>col_name = ''flag'', col_dtype = Boolean, col_values = [VBool True, VNull]\<rparr>]"
  let ?pat = "[(''pattern'', VStr ''b''), (''replacement'', VStr ''X'')]"
  let ?val = "[(''value'', VInt 1), (''replacement'', VInt 2)]"
  have w: "distinct (df_columns mixed_frame) \<and> distinct [''a'', ''flag''] \<and>
           set [''a'', ''flag''] \<subseteq> set (df_columns mixed_frame)"
    by (simp add: df_columns_def mixed_frame_def)
  have s: "get_column mixed_frame ''flag'' = Inr ?flag \<and> col_dtype ?flag \<noteq> Utf8"
    by (simp add: get_column_def mixed_frame_def)
  have p: "get_column mixed_frame ''flag'' = Inr ?flag \<and> col_dtype ?flag \<noteq> Utf8 \<and>
           pget ?pat ''pattern'' \<noteq> VNull \<and> pget ?pat ''value'' = VNull"
    by (simp add: get_column_def mixed_frame_def pget_def)
  have n: "get_column mixed_frame ''flag'' = Inr ?flag \<and> \<not> numeric_dtype (col_dtype ?flag)"
    by (simp add: get_column_def mixed_frame_def numeric_dtype_def)
  have f: "get_column mixed_frame ''flag'' = Inr ?flag \<and> ''flag'' \<in> set [''flag'']"
    by (simp add: get_column_def mixed_frame_def)
  have x: "get_column mixed_frame ''n'' = Inr ?n \<and> ''n'' \<in> set [''n'']"
    by (simp add: get_column_def mixed_frame_def)
  have smean: "pget_default [(''strategy'', VStr ''mean'')] ''strategy'' (VStr ''value'') = VStr ''mean''"
    by (simp add: pget_default_def)
  have smed: "pget_default [(''strategy'', VStr ''median'')] ''strategy'' (VStr ''value'') =
      VStr ''median''"
    by (simp add: pget_default_def)
  have sval: "pget ?val ''value'' \<noteq> VNull \<and> (\<forall>l. pget ?val ''value'' \<noteq> VList l)"
    by (simp add: pget_def)
  have ev_low: "lowercase example_engine mixed_frame [''a'', ''flag''] [] = Inr ?low"
    by (simp add: mixed_frame_def engine_defs op_defs)
  have ev_rep: "replace example_engine mixed_frame [''a'', ''flag''] ?pat = Inr ?rep"
    by (simp add: mixed_frame_def engine_defs op_defs)
  have ev_mean: "fill_nulls example_engine mixed_frame [''flag''] [(''strategy'', VStr ''mean'')] =
      Inr ?filled"
    by (simp add: mixed_frame_def engine_defs op_defs)
  have ev_med: "fill_nulls example_engine mixed_frame [''flag''] [(''strategy'', VStr ''median'')] =
      Inr ?filled"
    by (simp add: mixed_frame_def engine_defs op_defs)
  have ev_val: "replace example_engine mixed_frame [''n''] ?val = Inr ?exact"
    by (simp add: mixed_frame_def engine_defs op_defs)
  have in_low: "lowercase \<in> set [trim_whitespace, lowercase, uppercase]" by simp
  note t1 = C4_permissive_skip [where df = mixed_frame and columns = "[''a'', ''flag'']"
    and E = example_engine and ps = "[]" and col = "''flag''" and c = ?flag]
  note a1 = t1 [THEN conjunct1, THEN mp, OF w, THEN bspec, OF in_low]
  note low = t1 [THEN conjunct2, THEN conjunct1, THEN mp, OF s, THEN bspec, OF in_low]
  note a2 = low [THEN conjunct1]
  note a3 = low [THEN conjunct2, THEN spec, THEN mp, OF ev_low]
  note t3 = C4_permissive_skip [where df = mixed_frame and columns = "[''a'', ''flag'']"
    and E = example_engine and ps = ?pat and col = "''flag''" and c = ?flag]
  note a4 = t3 [THEN conjunct2, THEN conjunct2, THEN conjunct1, THEN mp, OF p, THEN conjunct1]
  note t4 = C4_permissive_skip [where df = mixed_frame and columns = "[''flag'']"
    and E = example_engine and ps = "[]" and col = "''flag''" and c = ?flag]
  note num = t4 [THEN conjunct2, THEN conjunct2, THEN conjunct2, THEN conjunct1, THEN mp, OF n]
  note a5 = num [THEN conjunct1]
  note a6 = num [THEN conjunct2, THEN conjunct2]
  note t5 = C4_permissive_skip [where df = mixed_frame and columns = "[''flag'']"
    and E = example_engine and ps = "[(''strategy'', VStr ''mean'')]" and col = "''flag''"
    and c = ?flag]
  note a7 = t5 [THEN conjunct2, THEN conjunct2, THEN conjunct2, THEN conjunct2, THEN mp, OF f,
    THEN conjunct1, THEN mp, OF smean, THEN conjunct1, THEN spec, THEN mp, OF ev_mean]
  note t6 = C4_permissive_skip [where df = mixed_frame and columns = "[''flag'']"
    and E = example_engine and ps = "[(''strategy'', VStr ''median'')]" and col = "''flag''"
    and c = ?flag]
  note a8 = t6 [THEN conjunct2, THEN conjunct2, THEN conjunct2, THEN conjunct2, THEN mp, OF f,
    THEN conjunct2, THEN conjunct1, THEN mp, OF smed, THEN conjunct1, THEN spec, THEN mp, OF ev_med]
  note t7 = C4_permissive_skip [where df = mixed_frame and columns = "[''n'']"
    and E = example_engine and ps = ?val and col = "''n''" and c = ?n]
  note a9 = t7 [THEN conjunct2, THEN conjunct2, THEN conjunct2, THEN conjunct2, THEN mp, OF x,
    THEN conjunct2, THEN conjunct2, THEN mp, OF sval, THEN conjunct1, THEN spec, THEN mp, OF ev_val]
  from a1 a2 a3 a4 ev_rep a5 a6 a7 a8 a9 show ?thesis by (intro conjI)
qed

section \<open>The store\<close>






end
